theory Spec2Isabelle
  imports Complex_Main
begin

section \<open>Python strings\<close>

text \<open>
  Strings are lists of ASCII characters. \<open>str.lower\<close> and the regular expression class
  \<open>\W\<close> are modelled on ASCII: a name with letters outside ASCII is outside this model.
\<close>

definition lower_char :: "char \<Rightarrow> char" where
  "lower_char c =
     (case map_of (zip ''ABCDEFGHIJKLMNOPQRSTUVWXYZ'' ''abcdefghijklmnopqrstuvwxyz'') c of
        None \<Rightarrow> c
      | Some l \<Rightarrow> l)"

text \<open>\<open>s.lower()\<close>\<close>

definition lower :: "string \<Rightarrow> string" where
  "lower s = map lower_char s"

text \<open>\<open>s.startswith(p)\<close>\<close>

fun startswith :: "string \<Rightarrow> string \<Rightarrow> bool" where
  "startswith s [] = True"
| "startswith [] (p # ps) = False"
| "startswith (c # cs) (p # ps) = (c = p \<and> startswith cs ps)"

text \<open>\<open>sub in s\<close> for two strings: \<open>sub\<close> occurs in \<open>s\<close> as a contiguous substring.\<close>

fun py_in :: "string \<Rightarrow> string \<Rightarrow> bool" where
  "py_in sub [] = (sub = [])"
| "py_in sub (c # cs) = (startswith (c # cs) sub \<or> py_in sub cs)"

text \<open>\<open>bool(s)\<close> for an optional string: \<open>None\<close> and the empty string are false.\<close>

fun truthy :: "string option \<Rightarrow> bool" where
  "truthy None = False"
| "truthy (Some s) = (s \<noteq> [])"

text \<open>The word characters of \<open>\w\<close>: letters, digits and the underscore.\<close>

definition is_word_char :: "char \<Rightarrow> bool" where
  "is_word_char c =
     (c \<in> set ''abcdefghijklmnopqrstuvwxyzABCDEFGHIJKLMNOPQRSTUVWXYZ0123456789_'')"

text \<open>\<open>re.sub(r'\W+', '_', s)\<close>: every maximal run of non-word characters becomes one
  underscore.\<close>

function re_sub_nonword :: "string \<Rightarrow> string" where
  "re_sub_nonword [] = []"
| "re_sub_nonword (c # cs) =
     (if is_word_char c then c # re_sub_nonword cs
      else CHR ''_'' # re_sub_nonword (dropWhile (\<lambda>x. \<not> is_word_char x) cs))"
  by pat_completeness auto
termination
  by (relation "measure length") (auto simp: le_imp_less_Suc length_dropWhile_le)

text \<open>\<open>str(n)\<close> for an integer: its decimal digits, with a minus sign when negative.\<close>

fun str_nat :: "nat \<Rightarrow> string" where
  "str_nat n =
     (if n < 10 then [''0123456789'' ! n]
      else str_nat (n div 10) @ [''0123456789'' ! (n mod 10)])"

definition str_int :: "int \<Rightarrow> string" where
  "str_int i = (if i < 0 then CHR ''-'' # str_nat (nat (- i)) else str_nat (nat i))"

text \<open>\<open>sep.join(xs)\<close>\<close>

fun join :: "string \<Rightarrow> string list \<Rightarrow> string" where
  "join sep [] = []"
| "join sep [x] = x"
| "join sep (x # y # ys) = x @ sep @ join sep (y # ys)"

section \<open>Data model of \<open>repo_viz.py\<close>\<close>

text \<open>The exceptions: \<open>ReadError\<close> stands for whatever reading a file raises.\<close>

datatype py_error = ValueError | GitCommandError | ReadError | SyntaxError | AttributeError

record SecurityIssue =
  severity :: string
  issue_type :: string
  filename :: string
  line :: int
  description :: string

record PerformanceMetric =
  complexity :: int
  maintainability :: real
  io_operations :: int
  db_operations :: int
  network_calls :: int

text \<open>The fields \<open>command\<close>, \<open>size\<close> and \<open>dependencies\<close> of \<open>DockerLayer\<close> carry the
  prefix \<open>layer_\<close> here: \<open>size\<close> is a constant of HOL and \<open>dependencies\<close> is also a field
  of \<open>Component\<close>.\<close>

record DockerLayer =
  layer_command :: string
  layer_size :: int
  layer_dependencies :: "string list"

text \<open>A Python \<open>set\<close> of strings is a list without repetitions, in the order the set
  iterates; no property below depends on that order.\<close>

record Component =
  name :: string
  type :: string
  path :: string
  performance :: "PerformanceMetric option"
  security_issues :: "SecurityIssue list"
  test_coverage :: real
  docker_layers :: "DockerLayer list"
  dependencies :: "string list"
  api_endpoints :: "string list"
  external_urls :: "string list"

text \<open>A \<open>dict\<close> keeps its keys in insertion order; assigning to a key that is present
  replaces the value in place.\<close>

type_synonym ('k, 'v) dict = "('k \<times> 'v) list"

fun dict_set :: "'k \<Rightarrow> 'v \<Rightarrow> ('k, 'v) dict \<Rightarrow> ('k, 'v) dict" where
  "dict_set k v [] = [(k, v)]"
| "dict_set k v ((k', v') # d) = (if k = k' then (k, v) # d else (k', v') # dict_set k v d)"

definition keys :: "('k, 'v) dict \<Rightarrow> 'k set" where
  "keys d = fst ` set d"

definition dict_values :: "('k, 'v) dict \<Rightarrow> 'v list" where
  "dict_values d = map snd d"

record ArchitectureAnalyzer =
  repo_path :: string
  temp_dir :: "string option"
  components :: "(string, Component) dict"
  docker_client :: bool

section \<open>The syntax tree and the files of a repository\<close>

text \<open>
  The part of a Python syntax tree the analyzers read: \<open>Import\<close> with the names of its
  aliases, \<open>ImportFrom\<close> with its module, \<open>Name\<close> with its \<open>id\<close>, \<open>Attribute\<close> with its
  value and its \<open>attr\<close>, \<open>Call\<close> with its callee and its arguments, and \<open>Other\<close> for a
  node of any other class with its child nodes. Alias and expression-context nodes,
  which no analyzer looks at, are left out.
\<close>

datatype node =
    Import "string list"
  | ImportFrom "string option"
  | Name string
  | Attribute node string
  | Call node "node list"
  | Other "node list"

text \<open>\<open>ast.iter_child_nodes\<close>\<close>

fun iter_child_nodes :: "node \<Rightarrow> node list" where
  "iter_child_nodes (Import names) = []"
| "iter_child_nodes (ImportFrom m) = []"
| "iter_child_nodes (Name i) = []"
| "iter_child_nodes (Attribute v a) = [v]"
| "iter_child_nodes (Call f args) = f # args"
| "iter_child_nodes (Other children) = children"

text \<open>\<open>ast.walk\<close>: breadth first, from a queue of nodes still to visit.\<close>

function walk_queue :: "node list \<Rightarrow> node list" where
  "walk_queue [] = []"
| "walk_queue (n # todo) = n # walk_queue (todo @ iter_child_nodes n)"
  by pat_completeness auto
termination
proof (relation "measure (size_list size)")
  show "wf (measure (size_list (size :: node \<Rightarrow> nat)))" by simp
next
  fix n :: node and todo :: "node list"
  have "size_list size (iter_child_nodes n) < Suc (size n)"
    by (cases n) simp_all
  then show "(todo @ iter_child_nodes n, n # todo) \<in> measure (size_list size)"
    by simp
qed

definition walk :: "node \<Rightarrow> node list" where
  "walk t = walk_queue [t]"

text \<open>
  A file found by \<open>rglob("*.py")\<close>, with what the libraries return for it: its stem,
  its text (\<open>None\<close> when reading raises), its syntax tree (\<open>None\<close> when \<open>ast.parse\<close>
  raises), the block complexities of radon's \<open>cc_visit\<close>, the maintainability index of
  \<open>mi_visit\<close> and the issues bandit reports.
\<close>

record source_file =
  file_path :: string
  file_stem :: string
  read_text :: "string option"
  ast_parse :: "node option"
  cc_visit :: "int list"
  mi_visit :: real
  bandit_issues :: "SecurityIssue list"

text \<open>
  What lies outside the program: the directory \<open>tempfile.mkdtemp\<close> returns, whether
  cloning a URL succeeds, the files \<open>rglob("*.py")\<close> finds under a path, and whether a
  Docker daemon answers.
\<close>

record world =
  mkdtemp :: string
  clone_ok :: "string \<Rightarrow> bool"
  rglob_py :: "string \<Rightarrow> source_file list"
  docker_from_env :: bool

section \<open>The analyzers\<close>

text \<open>\<open>ArchitectureAnalyzer.__init__\<close>: the branch \<open>if repo_url\<close> is taken for a URL that is
  neither \<open>None\<close> nor empty, the branch \<open>elif local_path\<close> likewise; cloning may raise.\<close>

definition init :: "world \<Rightarrow> string option \<Rightarrow> string option \<Rightarrow> py_error + ArchitectureAnalyzer" where
  "init w repo_url local_path =
     (case (if truthy repo_url then repo_url else None) of
        Some url \<Rightarrow>
          if clone_ok w url then
            Inr \<lparr>repo_path = mkdtemp w, temp_dir = Some (mkdtemp w), components = [],
                 docker_client = docker_from_env w\<rparr>
          else Inl GitCommandError
      | None \<Rightarrow>
          (case (if truthy local_path then local_path else None) of
             Some p \<Rightarrow>
               Inr \<lparr>repo_path = p, temp_dir = None, components = [],
                    docker_client = docker_from_env w\<rparr>
           | None \<Rightarrow> Inl ValueError))"

text \<open>\<open>_detect_component_type\<close>\<close>

definition detect_component_type :: "source_file \<Rightarrow> py_error + string" where
  "detect_component_type f =
     (case read_text f of
        None \<Rightarrow> Inl ReadError
      | Some txt \<Rightarrow>
          if py_in ''test'' (lower (file_stem f)) then Inr ''test''
          else if list_ex (\<lambda>x. py_in x (lower txt)) [''fastapi'', ''flask'', ''django'']
            then Inr ''api''
          else if py_in ''model'' (lower (file_stem f)) then Inr ''model''
          else Inr ''module'')"

text \<open>\<open>deps.add(x)\<close> on a set\<close>

definition set_add :: "string \<Rightarrow> string list \<Rightarrow> string list" where
  "set_add x s = (if x \<in> set s then s else s @ [x])"

text \<open>\<open>s.split('.')[0]\<close>\<close>

definition split_dot_first :: "string \<Rightarrow> string" where
  "split_dot_first s = takeWhile (\<lambda>c. c \<noteq> CHR ''.'') s"

text \<open>The body of the loop of \<open>_extract_dependencies\<close> over the nodes of the tree.\<close>

fun add_import_deps :: "node \<Rightarrow> string list \<Rightarrow> string list" where
  "add_import_deps (Import names) deps = fold (\<lambda>n. set_add (split_dot_first n)) names deps"
| "add_import_deps (ImportFrom None) deps = deps"
| "add_import_deps (ImportFrom (Some m)) deps =
     (if m \<noteq> [] then set_add (split_dot_first m) deps else deps)"
| "add_import_deps n deps = deps"

text \<open>\<open>_extract_dependencies\<close>\<close>

definition extract_dependencies :: "source_file \<Rightarrow> py_error + string list" where
  "extract_dependencies f =
     (case read_text f of
        None \<Rightarrow> Inl ReadError
      | Some txt \<Rightarrow>
          (case ast_parse f of
             None \<Rightarrow> Inl SyntaxError
           | Some t \<Rightarrow> Inr (fold add_import_deps (walk t) [])))"

text \<open>\<open>getattr(n, 'id', '')\<close> and \<open>getattr(n, 'attr', '')\<close>: only a \<open>Name\<close> has an \<open>id\<close>,
  only an \<open>Attribute\<close> has an \<open>attr\<close>.\<close>

fun getattr_id :: "node \<Rightarrow> string" where
  "getattr_id (Name i) = i"
| "getattr_id n = []"

fun getattr_attr :: "node \<Rightarrow> string" where
  "getattr_attr (Attribute v a) = a"
| "getattr_attr n = []"

text \<open>The three conditions of the list comprehensions of \<open>analyze_performance\<close>.\<close>

fun is_io_call :: "node \<Rightarrow> bool" where
  "is_io_call (Call f args) =
     list_ex (\<lambda>io_name. py_in io_name (getattr_id f)) [''open'', ''read'', ''write'']"
| "is_io_call n = False"

fun is_db_call :: "node \<Rightarrow> bool" where
  "is_db_call (Call f args) =
     list_ex (\<lambda>db_op. py_in db_op (getattr_attr f)) [''execute'', ''query'', ''commit'']"
| "is_db_call n = False"

fun is_network_call :: "node \<Rightarrow> bool" where
  "is_network_call (Call f args) =
     list_ex (\<lambda>net_op. py_in net_op (getattr_attr f)) [''get'', ''post'', ''request'']"
| "is_network_call n = False"

text \<open>\<open>analyze_performance\<close>\<close>

definition analyze_performance :: "source_file \<Rightarrow> py_error + PerformanceMetric" where
  "analyze_performance f =
     (case read_text f of
        None \<Rightarrow> Inl ReadError
      | Some txt \<Rightarrow>
          (case ast_parse f of
             None \<Rightarrow> Inl SyntaxError
           | Some t \<Rightarrow>
               Inr \<lparr>complexity = sum_list (cc_visit f),
                    maintainability = mi_visit f,
                    io_operations = int (length (filter is_io_call (walk t))),
                    db_operations = int (length (filter is_db_call (walk t))),
                    network_calls = int (length (filter is_network_call (walk t)))\<rparr>))"

text \<open>\<open>analyze_security\<close>: the issues bandit reports for the file, field by field.\<close>

definition analyze_security :: "source_file \<Rightarrow> SecurityIssue list" where
  "analyze_security f = bandit_issues f"

text \<open>The loop of \<open>analyze\<close> over the files, on the component map.\<close>

fun analyze_files ::
  "source_file list \<Rightarrow> (string, Component) dict \<Rightarrow> py_error + (string, Component) dict" where
  "analyze_files [] comps = Inr comps"
| "analyze_files (f # fs) comps =
     (if py_in ''test'' (lower (file_stem f)) then analyze_files fs comps
      else
        (case detect_component_type f of
           Inl e \<Rightarrow> Inl e
         | Inr ty \<Rightarrow>
             (case extract_dependencies f of
                Inl e \<Rightarrow> Inl e
              | Inr deps \<Rightarrow>
                  (case analyze_performance f of
                     Inl e \<Rightarrow> Inl e
                   | Inr perf \<Rightarrow>
                       analyze_files fs
                         (dict_set (file_stem f)
                            \<lparr>name = file_stem f, type = ty, path = file_path f,
                             performance = Some perf,
                             security_issues = analyze_security f,
                             test_coverage = 0, docker_layers = [],
                             dependencies = deps, api_endpoints = [],
                             external_urls = []\<rparr>
                            comps)))))"

text \<open>\<open>ArchitectureAnalyzer.analyze\<close>\<close>

definition analyze :: "world \<Rightarrow> ArchitectureAnalyzer \<Rightarrow> py_error + ArchitectureAnalyzer" where
  "analyze w a =
     (case analyze_files (rglob_py w (repo_path a)) (components a) of
        Inl e \<Rightarrow> Inl e
      | Inr comps \<Rightarrow> Inr (a\<lparr>components := comps\<rparr>))"

section \<open>The diagram renderer\<close>

text \<open>The \<open>styles\<close> dictionary of \<open>generate_mermaid\<close>, and the line each entry gives.\<close>

definition styles :: "(string, string) dict" where
  "styles =
     [(''high'', ''fill:#f44336,color:white''),
      (''medium'', ''fill:#fb8c00,color:white''),
      (''low'', ''fill:#81c784,color:black'')]"

definition style_lines :: "string list" where
  "style_lines = map (\<lambda>(n, style). ''    classDef '' @ n @ '' '' @ style) styles"

text \<open>The \<open>layers\<close> dictionary: three list comprehensions over the values of the
  component map.\<close>

definition layers :: "(string, Component) dict \<Rightarrow> (string, Component list) dict" where
  "layers comps =
     [(''Client'', filter (\<lambda>c. py_in ''client'' (lower (name c))) (dict_values comps)),
      (''API'', filter (\<lambda>c. py_in ''api'' (lower (name c))) (dict_values comps)),
      (''Core'',
         filter (\<lambda>c. list_ex (\<lambda>x. py_in x (lower (name c))) [''core'', ''type'', ''base''])
           (dict_values comps))]"

text \<open>The conditional expression that picks the style suffix of a node.\<close>

definition node_style :: "int \<Rightarrow> string" where
  "node_style cc =
     (if cc > 50 then '':::high'' else if cc > 20 then '':::medium'' else '':::low'')"

text \<open>The line of a node, from the component and its performance record.\<close>

definition node_line :: "Component \<Rightarrow> PerformanceMetric \<Rightarrow> string" where
  "node_line c perf =
     ''        '' @ re_sub_nonword (name c) @ ''['' @ name c @ ''<br/>CC:''
       @ str_int (complexity perf) @ '']'' @ node_style (complexity perf)"

text \<open>The loop over the components of one layer. Reading \<open>complexity\<close> from a
  \<open>performance\<close> that is \<open>None\<close> raises.\<close>

fun add_nodes :: "Component list \<Rightarrow> string list \<Rightarrow> py_error + string list" where
  "add_nodes [] mermaid = Inr mermaid"
| "add_nodes (c # comps) mermaid =
     (case performance c of
        None \<Rightarrow> Inl AttributeError
      | Some perf \<Rightarrow> add_nodes comps (mermaid @ [node_line c perf]))"

text \<open>The loop over the layers; a layer without components is skipped.\<close>

fun add_layers :: "(string, Component list) dict \<Rightarrow> string list \<Rightarrow> py_error + string list" where
  "add_layers [] mermaid = Inr mermaid"
| "add_layers ((layer, comps) # rest) mermaid =
     (if comps \<noteq> [] then
        (case add_nodes comps (mermaid @ [''    subgraph '' @ layer @ '' Layer'']) of
           Inl e \<Rightarrow> Inl e
         | Inr m \<Rightarrow> add_layers rest (m @ [''    end'' @ [CHR 0x0A]]))
      else add_layers rest mermaid)"

text \<open>The line of an edge, from the key of the component and the dependency.\<close>

definition edge_line :: "string \<Rightarrow> string \<Rightarrow> string" where
  "edge_line n dep = ''    '' @ re_sub_nonword n @ '' --> '' @ re_sub_nonword dep"

text \<open>The inner loop over the dependencies of one component.\<close>

fun add_deps ::
  "(string, Component) dict \<Rightarrow> string \<Rightarrow> string list \<Rightarrow> string list \<Rightarrow> string list" where
  "add_deps comps n [] mermaid = mermaid"
| "add_deps comps n (dep # deps) mermaid =
     add_deps comps n deps
       (if dep \<in> keys comps then mermaid @ [edge_line n dep] else mermaid)"

text \<open>The outer loop over the items of the component map.\<close>

fun add_relationships ::
  "(string, Component) dict \<Rightarrow> (string, Component) dict \<Rightarrow> string list \<Rightarrow> string list" where
  "add_relationships comps [] mermaid = mermaid"
| "add_relationships comps ((n, c) # rest) mermaid =
     add_relationships comps rest (add_deps comps n (dependencies c) mermaid)"

text \<open>The list \<open>mermaid\<close> at the end of \<open>generate_mermaid\<close>, for a component map.\<close>

definition mermaid_lines :: "(string, Component) dict \<Rightarrow> py_error + string list" where
  "mermaid_lines comps =
     (case add_layers (layers comps)
             ([''graph TD'', ''    %% Style definitions''] @ style_lines) of
        Inl e \<Rightarrow> Inl e
      | Inr m \<Rightarrow> Inr (add_relationships comps comps m))"

text \<open>\<open>generate_mermaid\<close>: runs \<open>analyze\<close> first when the component map is empty, and
  returns the text with the analyzer as it then is.\<close>

definition generate_mermaid ::
  "world \<Rightarrow> ArchitectureAnalyzer \<Rightarrow> py_error + (string \<times> ArchitectureAnalyzer)" where
  "generate_mermaid w a =
     (case (if components a = [] then analyze w a else Inr a) of
        Inl e \<Rightarrow> Inl e
      | Inr a' \<Rightarrow>
          (case mermaid_lines (components a') of
             Inl e \<Rightarrow> Inl e
           | Inr m \<Rightarrow> Inr (join [CHR 0x0A] m, a')))"

section \<open>The command line of \<open>viz-cli.py\<close>\<close>

text \<open>The values \<open>dataclasses.asdict\<close> builds and \<open>json.dumps\<close> receives.\<close>

datatype pyval =
    PNone
  | PInt int
  | PFloat real
  | PStr string
  | PPath string
  | PList "pyval list"
  | PSet "pyval list"
  | PDict "(string \<times> pyval) list"

definition asdict_SecurityIssue :: "SecurityIssue \<Rightarrow> pyval" where
  "asdict_SecurityIssue i =
     PDict [(''severity'', PStr (severity i)), (''issue_type'', PStr (issue_type i)),
            (''filename'', PStr (filename i)), (''line'', PInt (line i)),
            (''description'', PStr (description i))]"

definition asdict_PerformanceMetric :: "PerformanceMetric \<Rightarrow> pyval" where
  "asdict_PerformanceMetric p =
     PDict [(''complexity'', PInt (complexity p)),
            (''maintainability'', PFloat (maintainability p)),
            (''io_operations'', PInt (io_operations p)),
            (''db_operations'', PInt (db_operations p)),
            (''network_calls'', PInt (network_calls p))]"

definition asdict_DockerLayer :: "DockerLayer \<Rightarrow> pyval" where
  "asdict_DockerLayer l =
     PDict [(''command'', PStr (layer_command l)), (''size'', PInt (layer_size l)),
            (''dependencies'', PSet (map PStr (layer_dependencies l)))]"

definition asdict :: "Component \<Rightarrow> pyval" where
  "asdict c =
     PDict [(''name'', PStr (name c)), (''type'', PStr (type c)), (''path'', PPath (path c)),
            (''performance'',
               (case performance c of None \<Rightarrow> PNone | Some p \<Rightarrow> asdict_PerformanceMetric p)),
            (''security_issues'', PList (map asdict_SecurityIssue (security_issues c))),
            (''test_coverage'', PFloat (test_coverage c)),
            (''docker_layers'', PList (map asdict_DockerLayer (docker_layers c))),
            (''dependencies'', PSet (map PStr (dependencies c))),
            (''api_endpoints'', PSet (map PStr (api_endpoints c))),
            (''external_urls'', PSet (map PStr (external_urls c)))]"

text \<open>What the \<open>analyze\<close> command computes as \<open>result\<close>: the diagram text, or the object
  handed to \<open>json.dumps\<close>.\<close>

datatype cli_result = MermaidText string | JsonDumps pyval

definition cli_analyze :: "world \<Rightarrow> string \<Rightarrow> string \<Rightarrow> py_error + cli_result" where
  "cli_analyze w target fmt =
     (case init w
             (if startswith target ''http://'' \<or> startswith target ''https://''
              then Some target else None)
             (if \<not> (startswith target ''http://'' \<or> startswith target ''https://'')
              then Some target else None) of
        Inl e \<Rightarrow> Inl e
      | Inr analyzer \<Rightarrow>
          if fmt = ''mermaid'' then
            (case generate_mermaid w analyzer of
               Inl e \<Rightarrow> Inl e
             | Inr (result, a') \<Rightarrow> Inr (MermaidText result))
          else
            Inr (JsonDumps
                   (PDict [(''components'',
                            PDict (map (\<lambda>(n, c). (n, asdict c)) (components analyzer)))])))"

section \<open>The states of an analyzer\<close>

text \<open>The analyzers a program can hold: one that \<open>__init__\<close> returned, and one that
  \<open>analyze\<close> or \<open>generate_mermaid\<close> left behind when called on such an analyzer.\<close>

inductive reachable :: "world \<Rightarrow> ArchitectureAnalyzer \<Rightarrow> bool" for w :: world where
  constructed: "init w repo_url local_path = Inr a \<Longrightarrow> reachable w a"
| analyzed: "reachable w a \<Longrightarrow> analyze w a = Inr a' \<Longrightarrow> reachable w a'"
| rendered: "reachable w a \<Longrightarrow> generate_mermaid w a = Inr (s, a') \<Longrightarrow> reachable w a'"

section \<open>Example inputs\<close>

text \<open>A component as \<open>analyze\<close> stores it, with a given name, complexity and dependency
  set.\<close>

definition example_component :: "string \<Rightarrow> int \<Rightarrow> string list \<Rightarrow> Component" where
  "example_component n cc deps =
     \<lparr>name = n, type = ''module'', path = n @ ''.py'',
      performance = Some \<lparr>complexity = cc, maintainability = 100, io_operations = 0,
                           db_operations = 0, network_calls = 0\<rparr>,
      security_issues = [], test_coverage = 0, docker_layers = [],
      dependencies = deps, api_endpoints = [], external_urls = []\<rparr>"

text \<open>A repository \<open>repo\<close> with the two files \<open>api.py\<close>, holding \<open>import os\<close>, and
  \<open>test_api.py\<close>, holding \<open>import api\<close>; every other path holds no Python file.\<close>

definition example_file :: source_file where
  "example_file =
     \<lparr>file_path = ''repo/api.py'', file_stem = ''api'', read_text = Some ''import os'',
      ast_parse = Some (Other [Import [''os'']]), cc_visit = [], mi_visit = 100,
      bandit_issues = []\<rparr>"

definition example_test_file :: source_file where
  "example_test_file =
     \<lparr>file_path = ''repo/test_api.py'', file_stem = ''test_api'',
      read_text = Some ''import api'', ast_parse = Some (Other [Import [''api'']]),
      cc_visit = [], mi_visit = 100, bandit_issues = []\<rparr>"

definition example_world :: world where
  "example_world =
     \<lparr>mkdtemp = ''/tmp/clone'', clone_ok = (\<lambda>url. True),
      rglob_py = (\<lambda>p. if p = ''repo'' then [example_test_file, example_file] else []),
      docker_from_env = False\<rparr>"

text \<open>A component map with \<open>utils\<close>, which imports \<open>api\<close> and the third-party module
  \<open>requests\<close>, and \<open>api\<close>.\<close>

definition example_map :: "(string, Component) dict" where
  "example_map =
     [(''utils'', example_component ''utils'' 3 [''api'', ''requests'']),
      (''api'', example_component ''api'' 60 [])]"

text \<open>A file with the four statements \<open>get(url)\<close>, \<open>session.get(url)\<close>, \<open>f.read()\<close> and
  \<open>open(p)\<close>, one per line, and its tree: a module of four expression statements.\<close>

definition example_calls :: node where
  "example_calls =
     Other [Other [Call (Name ''get'') [Name ''url'']],
            Other [Call (Attribute (Name ''session'') ''get'') [Name ''url'']],
            Other [Call (Attribute (Name ''f'') ''read'') []],
            Other [Call (Name ''open'') [Name ''p'']]]"

definition example_calls_file :: source_file where
  "example_calls_file =
     \<lparr>file_path = ''repo/calls.py'', file_stem = ''calls'',
      read_text = Some (''get(url)'' @ [CHR 0x0A] @ ''session.get(url)'' @ [CHR 0x0A]
                        @ ''f.read()'' @ [CHR 0x0A] @ ''open(p)''),
      ast_parse = Some example_calls, cc_visit = [], mi_visit = 100, bandit_issues = []\<rparr>"

text \<open>A file with the one statement \<open>get(url)\<close>.\<close>

definition example_get_file :: source_file where
  "example_get_file =
     \<lparr>file_path = ''repo/fetch.py'', file_stem = ''fetch'', read_text = Some ''get(url)'',
      ast_parse = Some (Other [Other [Call (Name ''get'') [Name ''url'']]]),
      cc_visit = [], mi_visit = 100, bandit_issues = []\<rparr>"

lemmas eval_defs =
  mermaid_lines_def layers_def dict_values_def example_component_def lower_def lower_char_def
  style_lines_def styles_def node_line_def node_style_def str_int_def is_word_char_def
  keys_def edge_line_def

lemmas world_defs =
  example_world_def example_file_def example_test_file_def cli_analyze_def init_def
  generate_mermaid_def analyze_def detect_component_type_def extract_dependencies_def analyze_performance_def
  analyze_security_def walk_def set_add_def split_dot_first_def

section \<open>What the rendering loops append\<close>

lemma add_nodes_Inr:
  "add_nodes cs m = Inr m' \<longleftrightarrow>
     (\<forall>c \<in> set cs. performance c \<noteq> None) \<and>
     m' = m @ map (\<lambda>c. node_line c (the (performance c))) cs"
  by (induction cs arbitrary: m) (auto split: option.splits)

lemma add_layers_Inr:
  "add_layers ls m = Inr m' \<longleftrightarrow>
     (\<forall>(l, g) \<in> set ls. \<forall>c \<in> set g. performance c \<noteq> None) \<and>
     m' = m @ concat (map (\<lambda>(l, g). if g = [] then [] else
        [''    subgraph '' @ l @ '' Layer''] @ map (\<lambda>c. node_line c (the (performance c))) g
          @ [''    end'' @ [CHR 0x0A]]) ls)"
proof (induction ls arbitrary: m)
  case Nil
  then show ?case by auto
next
  case (Cons lg ls)
  obtain l g where lg: "lg = (l, g)" by (cases lg)
  show ?case
  proof (cases "g = []")
    case True
    then show ?thesis using Cons lg by simp
  next
    case False
    show ?thesis
    proof (cases "add_nodes g (m @ [''    subgraph '' @ l @ '' Layer''])")
      case (Inl e)
      then have "\<not> (\<forall>c \<in> set g. performance c \<noteq> None)"
        using add_nodes_Inr [of g "m @ [''    subgraph '' @ l @ '' Layer'']"] by auto
      then show ?thesis using Inl False lg by auto
    next
      case (Inr m1)
      then have 1: "\<forall>c \<in> set g. performance c \<noteq> None"
        and 2: "m1 = (m @ [''    subgraph '' @ l @ '' Layer''])
                  @ map (\<lambda>c. node_line c (the (performance c))) g"
        using add_nodes_Inr [of g "m @ [''    subgraph '' @ l @ '' Layer'']" m1] by auto
      show ?thesis
        using Inr False lg 1 2 Cons.IH [of "m1 @ [''    end'' @ [CHR 0x0A]]"] by auto
    qed
  qed
qed

lemma add_deps_eq:
  "add_deps comps n deps m = m @ map (edge_line n) (filter (\<lambda>d. d \<in> keys comps) deps)"
  by (induction deps arbitrary: m) auto

lemma add_relationships_eq:
  "add_relationships comps items m =
     m @ concat (map (\<lambda>(n, c). map (edge_line n)
                        (filter (\<lambda>d. d \<in> keys comps) (dependencies c))) items)"
  by (induction items arbitrary: m) (auto simp: add_deps_eq)

lemma rendered_node_in_lines:
  assumes "mermaid_lines comps = Inr m"
    and "(layer, grp) \<in> set (layers comps)" and "c \<in> set grp"
  shows "\<exists>perf. performance c = Some perf \<and> node_line c perf \<in> set m"
proof -
  obtain m1 where
    m1: "add_layers (layers comps)
           ([''graph TD'', ''    %% Style definitions''] @ style_lines) = Inr m1"
    and m: "m = add_relationships comps comps m1"
    using assms(1) by (auto simp: mermaid_lines_def split: sum.splits)
  from m1 have ok: "\<forall>(l, g) \<in> set (layers comps). \<forall>c \<in> set g. performance c \<noteq> None"
    and eq: "m1 = ([''graph TD'', ''    %% Style definitions''] @ style_lines)
      @ concat (map (\<lambda>(l, g). if g = [] then [] else
        [''    subgraph '' @ l @ '' Layer''] @ map (\<lambda>c. node_line c (the (performance c))) g
          @ [''    end'' @ [CHR 0x0A]]) (layers comps))"
    using add_layers_Inr [of "layers comps" _ m1] by blast+
  from ok assms(2,3) obtain perf where perf: "performance c = Some perf" by fastforce
  have "grp \<noteq> []" using assms(3) by auto
  then have "node_line c perf \<in> set (concat (map (\<lambda>(l, g). if g = [] then [] else
        [''    subgraph '' @ l @ '' Layer''] @ map (\<lambda>c. node_line c (the (performance c))) g
          @ [''    end'' @ [CHR 0x0A]]) (layers comps)))"
    using assms(2,3) perf by (force simp: image_iff)
  then have "node_line c perf \<in> set m1" unfolding eq by simp
  then have "node_line c perf \<in> set m" unfolding m add_relationships_eq by simp
  with perf show ?thesis by blast
qed

section \<open>The style class of a node\<close>

text \<open>
  Claim C3. Every rendered component (a member of a layer group of a map whose rendering
  succeeds) has its node line in the diagram, and the line ends with the class
  \<open>low\<close> when its complexity is at most 20, \<open>medium\<close> when it is above 20 and at most 50,
  and \<open>high\<close> when it is above 50. The boundary values 20, 21, 50 and 51 give low,
  medium, medium and high.
\<close>

theorem rendered_node_style_class:
  assumes "mermaid_lines comps = Inr m"
    and "(layer, grp) \<in> set (layers comps)" and "c \<in> set grp"
  shows "(\<exists>perf. performance c = Some perf \<and>
            ''        '' @ re_sub_nonword (name c) @ ''['' @ name c @ ''<br/>CC:''
              @ str_int (complexity perf) @ '']''
              @ (if complexity perf \<le> 20 then '':::low''
                 else if complexity perf \<le> 50 then '':::medium'' else '':::high'') \<in> set m)
         \<and> node_style 20 = '':::low'' \<and> node_style 21 = '':::medium''
         \<and> node_style 50 = '':::medium'' \<and> node_style 51 = '':::high''"
proof -
  from rendered_node_in_lines [OF assms] obtain perf
    where "performance c = Some perf" "node_line c perf \<in> set m" by blast
  moreover have "node_style (complexity perf) =
      (if complexity perf \<le> 20 then '':::low''
       else if complexity perf \<le> 50 then '':::medium'' else '':::high'')"
    by (simp add: node_style_def)
  ultimately have "\<exists>perf. performance c = Some perf \<and>
            ''        '' @ re_sub_nonword (name c) @ ''['' @ name c @ ''<br/>CC:''
              @ str_int (complexity perf) @ '']''
              @ (if complexity perf \<le> 20 then '':::low''
                 else if complexity perf \<le> 50 then '':::medium'' else '':::high'') \<in> set m"
    by (auto simp: node_line_def)
  then show ?thesis by (simp add: node_style_def)
qed

lemma example_api_21:
  "mermaid_lines [(''api'', example_component ''api'' 21 [])] = Inr
    [''graph TD'', ''    %% Style definitions'',
     ''    classDef high fill:#f44336,color:white'',
     ''    classDef medium fill:#fb8c00,color:white'',
     ''    classDef low fill:#81c784,color:black'',
     ''    subgraph API Layer'', ''        api[api<br/>CC:21]:::medium'',
     ''    end'' @ [CHR 0x0A]]"
  by (simp add: eval_defs)

theorem rendered_node_style_class_witness:
  "mermaid_lines [(''api'', example_component ''api'' 21 [])] = Inr
     [''graph TD'', ''    %% Style definitions'',
      ''    classDef high fill:#f44336,color:white'',
      ''    classDef medium fill:#fb8c00,color:white'',
      ''    classDef low fill:#81c784,color:black'',
      ''    subgraph API Layer'', ''        api[api<br/>CC:21]:::medium'',
      ''    end'' @ [CHR 0x0A]]
   \<and> (''API'', [example_component ''api'' 21 []])
       \<in> set (layers [(''api'', example_component ''api'' 21 [])])
   \<and> ''        api[api<br/>CC:21]:::medium'' \<in> set
     [''graph TD'', ''    %% Style definitions'',
      ''    classDef high fill:#f44336,color:white'',
      ''    classDef medium fill:#fb8c00,color:white'',
      ''    classDef low fill:#81c784,color:black'',
      ''    subgraph API Layer'', ''        api[api<br/>CC:21]:::medium'',
      ''    end'' @ [CHR 0x0A]]"
proof -
  have g: "(''API'', [example_component ''api'' 21 []])
       \<in> set (layers [(''api'', example_component ''api'' 21 [])])"
    by (simp add: eval_defs)
  have c: "example_component ''api'' 21 [] \<in> set [example_component ''api'' 21 []]"
    by simp
  from rendered_node_style_class [OF example_api_21 g c] example_api_21 g
  show ?thesis by simp
qed

text \<open>
  Claim C2. At complexity 20 the node is rendered with the class \<open>low\<close>, where the
  comments on the style table (orange for 20 to 50, green below 20) say \<open>medium\<close>.
\<close>

theorem complexity_20_renders_low:
  "mermaid_lines [(''api'', example_component ''api'' 20 [])] = Inr
    [''graph TD'', ''    %% Style definitions'',
     ''    classDef high fill:#f44336,color:white'',
     ''    classDef medium fill:#fb8c00,color:white'',
     ''    classDef low fill:#81c784,color:black'',
     ''    subgraph API Layer'', ''        api[api<br/>CC:20]:::low'',
     ''    end'' @ [CHR 0x0A]]"
  by (simp add: eval_defs)

section \<open>Construction and the empty repository\<close>

text \<open>
  Claim C10. Constructing the analyzer with neither a repository URL nor a local path
  (each \<open>None\<close> or empty) raises \<open>ValueError\<close>, whatever the world is, and returns no
  analyzer.
\<close>

theorem init_without_source_raises:
  assumes "\<not> truthy repo_url" and "\<not> truthy local_path"
  shows "init w repo_url local_path = Inl ValueError
         \<and> (\<forall>a. init w repo_url local_path \<noteq> Inr a)"
  using assms by (simp add: init_def)

theorem init_without_source_raises_witness:
  "\<not> truthy None \<and> init example_world None None = Inl ValueError"
  using init_without_source_raises [of None None example_world] by simp

lemma init_components: "init w repo_url local_path = Inr a \<Longrightarrow> components a = []"
  by (auto simp: init_def split: if_splits option.splits)

text \<open>
  Claim C8. For an analyzer as constructed, on a directory in which \<open>rglob("*.py")\<close> finds
  no file, \<open>analyze\<close> leaves the component map empty and \<open>generate_mermaid\<close> returns the
  header, the comment line and the three \<open>classDef\<close> lines, and nothing else.
\<close>

theorem empty_repository_renders_header_only:
  assumes "init w repo_url local_path = Inr a" and "rglob_py w (repo_path a) = []"
  shows "analyze w a = Inr a \<and> components a = []
         \<and> generate_mermaid w a = Inr (join [CHR 0x0A]
             [''graph TD'', ''    %% Style definitions'',
              ''    classDef high fill:#f44336,color:white'',
              ''    classDef medium fill:#fb8c00,color:white'',
              ''    classDef low fill:#81c784,color:black''], a)"
proof -
  have c: "components a = []" using assms(1) by (rule init_components)
  have an: "analyze w a = Inr a" using assms(2) c by (simp add: analyze_def)
  have "mermaid_lines [] = Inr
             [''graph TD'', ''    %% Style definitions'',
              ''    classDef high fill:#f44336,color:white'',
              ''    classDef medium fill:#fb8c00,color:white'',
              ''    classDef low fill:#81c784,color:black'']"
    by (simp add: eval_defs)
  then show ?thesis using c an by (simp add: generate_mermaid_def)
qed

theorem empty_repository_renders_header_only_witness:
  "init example_world None (Some ''empty'')
     = Inr \<lparr>repo_path = ''empty'', temp_dir = None, components = [], docker_client = False\<rparr>
   \<and> rglob_py example_world ''empty'' = []
   \<and> generate_mermaid example_world
        \<lparr>repo_path = ''empty'', temp_dir = None, components = [], docker_client = False\<rparr>
     = Inr (join [CHR 0x0A]
             [''graph TD'', ''    %% Style definitions'',
              ''    classDef high fill:#f44336,color:white'',
              ''    classDef medium fill:#fb8c00,color:white'',
              ''    classDef low fill:#81c784,color:black''],
            \<lparr>repo_path = ''empty'', temp_dir = None, components = [],
             docker_client = False\<rparr>)"
proof -
  have i: "init example_world None (Some ''empty'')
     = Inr \<lparr>repo_path = ''empty'', temp_dir = None, components = [], docker_client = False\<rparr>"
    by (simp add: init_def example_world_def)
  have r: "rglob_py example_world (repo_path \<lparr>repo_path = ''empty'', temp_dir = None,
             components = [], docker_client = False\<rparr>) = []"
    by (simp add: example_world_def)
  from empty_repository_renders_header_only [OF i r] i r show ?thesis by simp
qed

section \<open>The JSON dump of the command line\<close>

lemma cli_json_components_empty:
  assumes "cli_analyze w target fmt = Inr (JsonDumps v)"
  shows "v = PDict [(''components'', PDict [])]"
proof -
  obtain a where a: "init w
             (if startswith target ''http://'' \<or> startswith target ''https://''
              then Some target else None)
             (if \<not> (startswith target ''http://'' \<or> startswith target ''https://'')
              then Some target else None) = Inr a"
    using assms by (auto simp: cli_analyze_def split: sum.splits)
  have c: "components a = []" using a by (rule init_components)
  show ?thesis
  proof (cases "fmt = ''mermaid''")
    case True
    then show ?thesis using assms a
      by (cases "generate_mermaid w a") (auto simp: cli_analyze_def)
  next
    case False
    then show ?thesis using assms a c by (simp add: cli_analyze_def)
  qed
qed

text \<open>
  Claim C1. On the repository \<open>repo\<close>, which holds the non-test file \<open>api.py\<close> and a
  test file, the command with format \<open>json\<close> dumps an empty \<open>components\<close> object: that
  branch never runs \<open>analyze\<close> (and so it is in every world, by the lemma above). With
  format \<open>mermaid\<close> the same command analyzes the file and renders its node.
\<close>

theorem json_dump_has_no_components:
  "rglob_py example_world ''repo'' = [example_test_file, example_file]
   \<and> cli_analyze example_world ''repo'' ''json''
       = Inr (JsonDumps (PDict [(''components'', PDict [])]))
   \<and> cli_analyze example_world ''repo'' ''mermaid''
       = Inr (MermaidText (join [CHR 0x0A]
           [''graph TD'', ''    %% Style definitions'',
            ''    classDef high fill:#f44336,color:white'',
            ''    classDef medium fill:#fb8c00,color:white'',
            ''    classDef low fill:#81c784,color:black'',
            ''    subgraph API Layer'', ''        api[api<br/>CC:0]:::low'',
            ''    end'' @ [CHR 0x0A]]))"
  by (simp add: world_defs eval_defs)

section \<open>The kinds of the stored components\<close>

lemma detect_component_type_kinds:
  assumes "\<not> py_in ''test'' (lower (file_stem f))" and "detect_component_type f = Inr ty"
  shows "ty \<in> {''api'', ''model'', ''module''}"
proof (cases "read_text f")
  case None
  then show ?thesis using assms(2) by (simp add: detect_component_type_def)
next
  case (Some s)
  then show ?thesis using assms unfolding detect_component_type_def
    by (simp split: if_splits)
qed

lemma set_dict_set: "set (dict_set k v d) \<subseteq> insert (k, v) (set d)"
  by (induction d) (auto split: if_splits)

lemma dict_set_keys: "map fst (dict_set k v d) = (if k \<in> fst ` set d then map fst d else map fst d @ [k])"
  by (induction d) (auto split: if_splits)

lemma distinct_dict_set: "distinct (map fst d) \<Longrightarrow> distinct (map fst (dict_set k v d))"
  by (simp add: dict_set_keys)

lemma analyze_files_invariant:
  assumes "analyze_files fs comps = Inr comps'"
    and "distinct (map fst comps)"
    and "\<forall>(k, c) \<in> set comps. name c = k \<and> \<not> py_in ''test'' (lower k)
           \<and> type c \<in> {''api'', ''model'', ''module''}"
  shows "distinct (map fst comps') \<and>
         (\<forall>(k, c) \<in> set comps'. name c = k \<and> \<not> py_in ''test'' (lower k)
           \<and> type c \<in> {''api'', ''model'', ''module''})"
  using assms
proof (induction fs arbitrary: comps)
  case Nil
  then show ?case by simp
next
  case (Cons f fs)
  show ?case
  proof (cases "py_in ''test'' (lower (file_stem f))")
    case True
    then have "analyze_files fs comps = Inr comps'" using Cons.prems(1) by simp
    from Cons.IH [OF this Cons.prems(2,3)] show ?thesis .
  next
    case False
    from Cons.prems(1) False obtain ty where ty: "detect_component_type f = Inr ty"
      by (cases "detect_component_type f") simp_all
    from Cons.prems(1) False ty obtain deps where deps: "extract_dependencies f = Inr deps"
      by (cases "extract_dependencies f") simp_all
    from Cons.prems(1) False ty deps obtain perf where perf: "analyze_performance f = Inr perf"
      by (cases "analyze_performance f") simp_all
    define c0 where "c0 = \<lparr>name = file_stem f, type = ty, path = file_path f,
                             performance = Some perf,
                             security_issues = analyze_security f,
                             test_coverage = 0, docker_layers = [],
                             dependencies = deps, api_endpoints = [],
                             external_urls = []\<rparr>"
    have r: "analyze_files fs (dict_set (file_stem f) c0 comps) = Inr comps'"
      using Cons.prems(1) False ty deps perf unfolding c0_def by simp
    have "type c0 = ty" and n: "name c0 = file_stem f" by (simp_all add: c0_def)
    then have t: "type c0 \<in> {''api'', ''model'', ''module''}"
      using detect_component_type_kinds [OF False ty] by simp
    have "name c = k \<and> \<not> py_in ''test'' (lower k) \<and> type c \<in> {''api'', ''model'', ''module''}"
      if "(k, c) \<in> set (dict_set (file_stem f) c0 comps)" for k c
    proof -
      from that set_dict_set [of "file_stem f" c0 comps]
      have "(k, c) = (file_stem f, c0) \<or> (k, c) \<in> set comps" by blast
      then show ?thesis
      proof
        assume "(k, c) = (file_stem f, c0)"
        then show ?thesis using t n False by simp
      next
        assume "(k, c) \<in> set comps"
        then show ?thesis using Cons.prems(3) by blast
      qed
    qed
    then have 1: "\<forall>(k, c) \<in> set (dict_set (file_stem f) c0 comps).
              name c = k \<and> \<not> py_in ''test'' (lower k) \<and> type c \<in> {''api'', ''model'', ''module''}"
      by blast
    have 2: "distinct (map fst (dict_set (file_stem f) c0 comps))"
      using Cons.prems(2) by (rule distinct_dict_set)
    from Cons.IH [OF r 2 1] show ?thesis .
  qed
qed

lemma analyze_components:
  assumes "analyze w a = Inr a'"
  shows "analyze_files (rglob_py w (repo_path a)) (components a) = Inr (components a')"
proof (cases "analyze_files (rglob_py w (repo_path a)) (components a)")
  case (Inl e)
  then show ?thesis using assms by (simp add: analyze_def)
next
  case (Inr comps')
  then have "a' = a\<lparr>components := comps'\<rparr>" using assms by (simp add: analyze_def)
  then have "components a' = comps'" by simp
  then show ?thesis using Inr by simp
qed

lemma generate_mermaid_state:
  assumes "generate_mermaid w a = Inr (s, a')"
  shows "a' = a \<or> analyze w a = Inr a'"
proof (cases "components a = []")
  case True
  show ?thesis
  proof (cases "analyze w a")
    case (Inl e)
    then show ?thesis using assms True by (simp add: generate_mermaid_def)
  next
    case (Inr a1)
    then show ?thesis using assms True
      by (cases "mermaid_lines (components a1)") (simp_all add: generate_mermaid_def)
  qed
next
  case False
  then show ?thesis using assms
    by (cases "mermaid_lines (components a)") (simp_all add: generate_mermaid_def)
qed

lemma reachable_invariant:
  assumes "reachable w a"
  shows "distinct (map fst (components a)) \<and>
         (\<forall>(k, c) \<in> set (components a). name c = k \<and> \<not> py_in ''test'' (lower k)
           \<and> type c \<in> {''api'', ''model'', ''module''})"
  using assms
proof (induction rule: reachable.induct)
  case (constructed repo_url local_path a)
  then show ?case using init_components [of w repo_url local_path a] by simp
next
  case (analyzed a a')
  show ?case
    by (rule analyze_files_invariant [OF analyze_components [OF analyzed.hyps(2)]
          conjunct1 [OF analyzed.IH] conjunct2 [OF analyzed.IH]])
next
  case (rendered a s a')
  from generate_mermaid_state [OF rendered.hyps(2)] show ?case
  proof
    assume "a' = a" then show ?thesis using rendered.IH by simp
  next
    assume "analyze w a = Inr a'"
    show ?thesis
      by (rule analyze_files_invariant [OF analyze_components [OF \<open>analyze w a = Inr a'\<close>]
            conjunct1 [OF rendered.IH] conjunct2 [OF rendered.IH]])
  qed
qed

text \<open>
  Claim C9. In every state of the analyzer (as constructed, after any run of \<open>analyze\<close>
  and after any \<open>generate_mermaid\<close>), every component stored in the map has kind \<open>api\<close>,
  \<open>model\<close> or \<open>module\<close>, never \<open>test\<close>, and its name does not hold \<open>test\<close>: a file whose
  stem holds \<open>test\<close> is skipped before \<open>_detect_component_type\<close> is called, so the \<open>test\<close>
  branch of the classifier is not taken for a stored record.
\<close>

theorem stored_component_is_never_test:
  assumes "reachable w a" and "(k, c) \<in> set (components a)"
  shows "type c \<in> {''api'', ''model'', ''module''} \<and> type c \<noteq> ''test''
         \<and> \<not> py_in ''test'' (lower (name c))"
proof -
  from reachable_invariant [OF assms(1)] assms(2)
  have 1: "name c = k \<and> \<not> py_in ''test'' (lower k) \<and> type c \<in> {''api'', ''model'', ''module''}"
    by blast
  then have "type c \<noteq> ''test''" by auto
  with 1 show ?thesis by simp
qed

theorem stored_component_is_never_test_witness:
  "reachable example_world
     \<lparr>repo_path = ''repo'', temp_dir = None,
      components =
        [(''api'',
          \<lparr>name = ''api'', type = ''module'', path = ''repo/api.py'',
           performance = Some \<lparr>complexity = 0, maintainability = 100,
              io_operations = 0, db_operations = 0, network_calls = 0\<rparr>,
           security_issues = [], test_coverage = 0, docker_layers = [],
           dependencies = [''os''], api_endpoints = [], external_urls = []\<rparr>)],
      docker_client = False\<rparr>
   \<and> ''module'' \<in> {''api'', ''model'', ''module''} \<and> ''module'' \<noteq> ''test''
   \<and> \<not> py_in ''test'' (lower ''api'')"
proof -
  have 0: "reachable example_world
      \<lparr>repo_path = ''repo'', temp_dir = None, components = [], docker_client = False\<rparr>"
    by (rule reachable.constructed [of example_world None "Some ''repo''"])
       (simp add: init_def example_world_def)
  have 1: "reachable example_world
     \<lparr>repo_path = ''repo'', temp_dir = None,
      components =
        [(''api'',
          \<lparr>name = ''api'', type = ''module'', path = ''repo/api.py'',
           performance = Some \<lparr>complexity = 0, maintainability = 100,
              io_operations = 0, db_operations = 0, network_calls = 0\<rparr>,
           security_issues = [], test_coverage = 0, docker_layers = [],
           dependencies = [''os''], api_endpoints = [], external_urls = []\<rparr>)],
      docker_client = False\<rparr>"
    by (rule reachable.analyzed [OF 0]) (simp add: world_defs eval_defs)
  from stored_component_is_never_test [OF 1, of "''api''"
     "\<lparr>name = ''api'', type = ''module'', path = ''repo/api.py'',
           performance = Some \<lparr>complexity = 0, maintainability = 100,
              io_operations = 0, db_operations = 0, network_calls = 0\<rparr>,
           security_issues = [], test_coverage = 0, docker_layers = [],
           dependencies = [''os''], api_endpoints = [], external_urls = []\<rparr>"] 1
  show ?thesis by simp
qed

section \<open>The text of node and edge lines\<close>

lemma underscore_word: "is_word_char (CHR ''_'')"
  by (simp add: is_word_char_def)

lemma space_not_word: "\<not> is_word_char (CHR '' '')"
  by (simp add: is_word_char_def)

lemma bracket_not_word: "\<not> is_word_char (CHR ''['')"
  by (simp add: is_word_char_def)

lemma b_word: "is_word_char (CHR ''b'')"
  by (simp add: is_word_char_def)

lemma re_sub_word: "x \<in> set (re_sub_nonword s) \<Longrightarrow> is_word_char x"
proof (induction s rule: re_sub_nonword.induct)
  case 1
  then show ?case by simp
next
  case (2 c cs)
  show ?case
  proof (cases "is_word_char c")
    case True
    then have "re_sub_nonword (c # cs) = c # re_sub_nonword cs" by simp
    then have "x = c \<or> x \<in> set (re_sub_nonword cs)" using "2.prems" by simp
    then show ?thesis
    proof
      assume "x = c" then show ?thesis using True by simp
    next
      assume "x \<in> set (re_sub_nonword cs)"
      then show ?thesis using True "2.IH"(1) by blast
    qed
  next
    case False
    then have "re_sub_nonword (c # cs) =
        CHR ''_'' # re_sub_nonword (dropWhile (\<lambda>x. \<not> is_word_char x) cs)" by simp
    then have "x = CHR ''_'' \<or> x \<in> set (re_sub_nonword (dropWhile (\<lambda>x. \<not> is_word_char x) cs))"
      using "2.prems" by simp
    then show ?thesis
    proof
      assume "x = CHR ''_''" then show ?thesis using underscore_word by simp
    next
      assume "x \<in> set (re_sub_nonword (dropWhile (\<lambda>x. \<not> is_word_char x) cs))"
      then show ?thesis using False "2.IH"(2) by blast
    qed
  qed
qed


lemma filter_dropWhile_excl:
  "(\<And>x. Q x \<Longrightarrow> \<not> P x) \<Longrightarrow> filter P (dropWhile Q xs) = filter P xs"
  by (induction xs) auto

lemma re_sub_alnum:
  "filter (\<lambda>x. is_word_char x \<and> x \<noteq> CHR ''_'') (re_sub_nonword s)
     = filter (\<lambda>x. is_word_char x \<and> x \<noteq> CHR ''_'') s"
proof (induction s rule: re_sub_nonword.induct)
  case 1
  then show ?case by simp
next
  case (2 c cs)
  show ?case
  proof (cases "is_word_char c")
    case True
    then have "re_sub_nonword (c # cs) = c # re_sub_nonword cs" by simp
    then show ?thesis using "2.IH"(1) [OF True] by simp
  next
    case False
    then have r: "re_sub_nonword (c # cs) =
        CHR ''_'' # re_sub_nonword (dropWhile (\<lambda>x. \<not> is_word_char x) cs)" by simp
    have "filter (\<lambda>x. is_word_char x \<and> x \<noteq> CHR ''_'')
            (dropWhile (\<lambda>x. \<not> is_word_char x) cs)
        = filter (\<lambda>x. is_word_char x \<and> x \<noteq> CHR ''_'') cs"
      by (rule filter_dropWhile_excl) simp
    then show ?thesis using False "2.IH"(2) [OF False] r by simp
  qed
qed

lemma split_at_sep:
  "a @ x # r = a' @ x # r' \<Longrightarrow> x \<notin> set a \<Longrightarrow> x \<notin> set a' \<Longrightarrow> a = a' \<and> r = r'"
proof (induction a arbitrary: a')
  case Nil
  then show ?case by (cases a') auto
next
  case (Cons y a)
  then show ?case by (cases a') auto
qed

lemma sep2_prefix:
  assumes "us @ x # y # t = x # y # t'" and "filter A us = []" and "A y" and "x \<noteq> y"
  shows "us = []"
proof (cases us)
  case Nil
  then show ?thesis .
next
  case (Cons u us')
  then have r: "us' @ x # y # t = y # t'" using assms(1) by simp
  show ?thesis
  proof (cases us')
    case Nil
    then show ?thesis using r assms(4) by simp
  next
    case (Cons v vs)
    then have "v = y" using r by simp
    then have "y \<in> set us" using Cons \<open>us = u # us'\<close> by simp
    then have "y \<in> set (filter A us)" using assms(3) by simp
    then show ?thesis using assms(2) by simp
  qed
qed

lemma append_sep2:
  assumes "n @ x # y # t = n' @ x # y # t'" and "filter A n = filter A n'"
    and "A y" and "x \<noteq> y"
  shows "n = n'"
proof -
  from assms(1) obtain us where
    "(n = n' @ us \<and> us @ x # y # t = x # y # t') \<or> (n @ us = n' \<and> x # y # t = us @ x # y # t')"
    unfolding append_eq_append_conv2 by blast
  then show ?thesis
  proof
    assume h: "n = n' @ us \<and> us @ x # y # t = x # y # t'"
    then have "filter A us = []" using assms(2) by simp
    from sep2_prefix [OF conjunct2 [OF h] this assms(3,4)] h show ?thesis by simp
  next
    assume h: "n @ us = n' \<and> x # y # t = us @ x # y # t'"
    then have "filter A n = filter A n @ filter A us" using assms(2) by auto
    then have "filter A us = []" by simp
    from sep2_prefix [OF sym [OF conjunct2 [OF h]] this assms(3,4)] h show ?thesis by simp
  qed
qed

lemma node_line_name_inj:
  assumes "node_line c p = node_line c' p'"
  shows "name c = name c'"
proof -
  from assms have e: "re_sub_nonword (name c) @ CHR ''['' #
      (name c @ CHR ''<'' # CHR ''b'' #
         (''r/>CC:'' @ str_int (complexity p) @ '']'' @ node_style (complexity p)))
    = re_sub_nonword (name c') @ CHR ''['' #
      (name c' @ CHR ''<'' # CHR ''b'' #
         (''r/>CC:'' @ str_int (complexity p') @ '']'' @ node_style (complexity p')))"
    by (simp add: node_line_def)
  have 1: "CHR ''['' \<notin> set (re_sub_nonword (name c))"
    using re_sub_word [of "CHR ''[''" "name c"] bracket_not_word by blast
  have 2: "CHR ''['' \<notin> set (re_sub_nonword (name c'))"
    using re_sub_word [of "CHR ''[''" "name c'"] bracket_not_word by blast
  from split_at_sep [OF e 1 2] have
    i: "re_sub_nonword (name c) = re_sub_nonword (name c')"
    and r: "name c @ CHR ''<'' # CHR ''b'' #
         (''r/>CC:'' @ str_int (complexity p) @ '']'' @ node_style (complexity p))
       = name c' @ CHR ''<'' # CHR ''b'' #
         (''r/>CC:'' @ str_int (complexity p') @ '']'' @ node_style (complexity p'))"
    by blast+
  have f: "filter (\<lambda>x. is_word_char x \<and> x \<noteq> CHR ''_'') (name c)
         = filter (\<lambda>x. is_word_char x \<and> x \<noteq> CHR ''_'') (name c')"
    using re_sub_alnum [of "name c"] re_sub_alnum [of "name c'"] i by simp
  show ?thesis
    by (rule append_sep2 [OF r f]) (simp_all add: b_word)
qed

lemma edge_line_not_node_line: "edge_line n d \<noteq> node_line c p"
proof
  assume "edge_line n d = node_line c p"
  then have e: "re_sub_nonword n @ '' --> '' @ re_sub_nonword d
      = ''    '' @ re_sub_nonword (name c) @ ''['' @ name c @ ''<br/>CC:''
       @ str_int (complexity p) @ '']'' @ node_style (complexity p)"
    by (simp add: edge_line_def node_line_def)
  show False
  proof (cases "re_sub_nonword n")
    case Nil
    then show ?thesis using e by simp
  next
    case (Cons a as)
    then have "a = CHR '' ''" using e by simp
    moreover have "is_word_char a" using re_sub_word [of a n] Cons by simp
    ultimately show ?thesis using space_not_word by simp
  qed
qed

lemma node_line_not_fixed:
  "node_line c p \<notin> set ([''graph TD'', ''    %% Style definitions''] @ style_lines)"
  "node_line c p \<noteq> ''    subgraph '' @ l @ '' Layer''"
  "node_line c p \<noteq> ''    end'' @ [CHR 0x0A]"
  by (simp_all add: node_line_def style_lines_def styles_def)

lemma edge_line_form:
  assumes "edge_line n d = ''    '' @ a @ CHR '' '' # r" and "CHR '' '' \<notin> set a"
  shows "r = ''--> '' @ re_sub_nonword d"
proof -
  from assms(1) have e: "re_sub_nonword n @ CHR '' '' # (''--> '' @ re_sub_nonword d)
      = a @ CHR '' '' # r"
    by (simp add: edge_line_def)
  have "CHR '' '' \<notin> set (re_sub_nonword n)"
    using re_sub_word [of "CHR '' ''" n] space_not_word by blast
  from split_at_sep [OF e this assms(2)] show ?thesis by simp
qed

lemma edge_line_not_fixed:
  "edge_line n d \<notin> set ([''graph TD'', ''    %% Style definitions''] @ style_lines)"
  "edge_line n d \<noteq> ''    subgraph '' @ ''Client'' @ '' Layer''"
  "edge_line n d \<noteq> ''    subgraph '' @ ''API'' @ '' Layer''"
  "edge_line n d \<noteq> ''    subgraph '' @ ''Core'' @ '' Layer''"
  "edge_line n d \<noteq> ''    end'' @ [CHR 0x0A]"
proof -
  have 0: "edge_line n d \<noteq> ''graph TD''" by (simp add: edge_line_def)
  have 1: "edge_line n d \<noteq> ''    %% Style definitions''"
    using edge_line_form [of n d "''%%''" "''Style definitions''"] by auto
  have 2: "edge_line n d \<noteq> ''    classDef high fill:#f44336,color:white''"
    using edge_line_form [of n d "''classDef''" "''high fill:#f44336,color:white''"] by auto
  have 3: "edge_line n d \<noteq> ''    classDef medium fill:#fb8c00,color:white''"
    using edge_line_form [of n d "''classDef''" "''medium fill:#fb8c00,color:white''"] by auto
  have 4: "edge_line n d \<noteq> ''    classDef low fill:#81c784,color:black''"
    using edge_line_form [of n d "''classDef''" "''low fill:#81c784,color:black''"] by auto
  show "edge_line n d \<notin> set ([''graph TD'', ''    %% Style definitions''] @ style_lines)"
    using 0 1 2 3 4 by (simp add: style_lines_def styles_def)
  show "edge_line n d \<noteq> ''    subgraph '' @ ''Client'' @ '' Layer''"
    using edge_line_form [of n d "''subgraph''" "''Client Layer''"] by auto
  show "edge_line n d \<noteq> ''    subgraph '' @ ''API'' @ '' Layer''"
    using edge_line_form [of n d "''subgraph''" "''API Layer''"] by auto
  show "edge_line n d \<noteq> ''    subgraph '' @ ''Core'' @ '' Layer''"
    using edge_line_form [of n d "''subgraph''" "''Core Layer''"] by auto
  show "edge_line n d \<noteq> ''    end'' @ [CHR 0x0A]"
  proof
    assume "edge_line n d = ''    end'' @ [CHR 0x0A]"
    then have "re_sub_nonword n @ '' --> '' @ re_sub_nonword d = ''end'' @ [CHR 0x0A]"
      by (simp add: edge_line_def)
    then have "set (re_sub_nonword n @ '' --> '' @ re_sub_nonword d) = set (''end'' @ [CHR 0x0A])"
      by simp
    moreover have "CHR '' '' \<in> set (re_sub_nonword n @ '' --> '' @ re_sub_nonword d)" by simp
    ultimately have "CHR '' '' \<in> set (''end'' @ [CHR 0x0A])" by blast
    then show False by simp
  qed
qed

section \<open>The rendered diagram\<close>

lemma set_add_relationships:
  "set (add_relationships comps items m) =
     set m \<union> {edge_line n dep | n c dep.
                 (n, c) \<in> set items \<and> dep \<in> set (dependencies c) \<and> dep \<in> keys comps}"
  unfolding add_relationships_eq by auto

lemma mermaid_lines_split:
  assumes "mermaid_lines comps = Inr m"
  shows "\<exists>nodes. add_layers (layers comps)
                    ([''graph TD'', ''    %% Style definitions''] @ style_lines) = Inr nodes
                \<and> m = nodes @ add_relationships comps comps []"
proof -
  obtain m1 where
    m1: "add_layers (layers comps)
           ([''graph TD'', ''    %% Style definitions''] @ style_lines) = Inr m1"
    and m: "m = add_relationships comps comps m1"
    using assms by (auto simp: mermaid_lines_def split: sum.splits)
  have "add_relationships comps comps m1 = m1 @ add_relationships comps comps []"
    by (simp add: add_relationships_eq)
  with m1 m show ?thesis by simp
qed

lemma mermaid_lines_Inr:
  "mermaid_lines comps = Inr m \<longleftrightarrow>
     (\<forall>(l, g) \<in> set (layers comps). \<forall>c \<in> set g. performance c \<noteq> None) \<and>
     m = ([''graph TD'', ''    %% Style definitions''] @ style_lines)
         @ concat (map (\<lambda>(l, g). if g = [] then [] else
             [''    subgraph '' @ l @ '' Layer'']
               @ map (\<lambda>c. node_line c (the (performance c))) g
               @ [''    end'' @ [CHR 0x0A]]) (layers comps))
         @ add_relationships comps comps []"
proof -
  have r: "add_relationships comps comps m1 = m1 @ add_relationships comps comps []" for m1
    by (simp add: add_relationships_eq)
  show ?thesis
  proof (cases "add_layers (layers comps)
                  ([''graph TD'', ''    %% Style definitions''] @ style_lines)")
    case (Inl e)
    then show ?thesis
      using add_layers_Inr [of "layers comps"
              "[''graph TD'', ''    %% Style definitions''] @ style_lines"]
      by (auto simp: mermaid_lines_def)
  next
    case (Inr m1)
    then show ?thesis
      using add_layers_Inr [of "layers comps"
              "[''graph TD'', ''    %% Style definitions''] @ style_lines" m1] r [of m1]
      by (auto simp: mermaid_lines_def)
  qed
qed

lemma layer_group_subset:
  "(l, g) \<in> set (layers comps) \<Longrightarrow> c \<in> set g \<Longrightarrow> c \<in> set (dict_values comps)"
  by (auto simp: layers_def)

lemma render_succeeds:
  assumes "\<forall>(k, c) \<in> set comps. performance c \<noteq> None"
  shows "\<exists>m. mermaid_lines comps = Inr m"
proof -
  have "performance c \<noteq> None" if "(l, g) \<in> set (layers comps)" "c \<in> set g" for l g c
  proof -
    from layer_group_subset [OF that] obtain k where "(k, c) \<in> set comps"
      by (auto simp: dict_values_def)
    then show ?thesis using assms by blast
  qed
  then have "\<forall>(l, g) \<in> set (layers comps). \<forall>c \<in> set g. performance c \<noteq> None" by blast
  then show ?thesis using mermaid_lines_Inr [of comps] by blast
qed

lemma count_list_map_inj:
  "(\<And>y. y \<in> set ys \<Longrightarrow> f y = f z \<Longrightarrow> y = z) \<Longrightarrow> count_list (map f ys) (f z) = count_list ys z"
  by (induction ys) auto

lemma node_line_not_in_edges: "node_line c p \<notin> set (add_relationships comps comps [])"
proof
  assume "node_line c p \<in> set (add_relationships comps comps [])"
  then obtain n d where "node_line c p = edge_line n d"
    unfolding set_add_relationships by auto
  then show False using edge_line_not_node_line [of n d c p] by simp
qed

lemma count_block:
  assumes "\<And>y. y \<in> set g \<Longrightarrow> node_line y (the (performance y)) = node_line c perf \<Longrightarrow> y = c"
    and "performance c = Some perf"
  shows "count_list (if g = [] then [] else
             [''    subgraph '' @ l @ '' Layer'']
               @ map (\<lambda>c. node_line c (the (performance c))) g
               @ [''    end'' @ [CHR 0x0A]]) (node_line c perf) = count_list g c"
proof -
  have "count_list (map (\<lambda>c. node_line c (the (performance c))) g)
          ((\<lambda>c. node_line c (the (performance c))) c) = count_list g c"
    by (rule count_list_map_inj) (use assms in simp)
  then have "count_list (map (\<lambda>c. node_line c (the (performance c))) g) (node_line c perf)
      = count_list g c"
    using assms(2) by simp
  then show ?thesis
    using node_line_not_fixed(2) [of c perf l] node_line_not_fixed(3) [of c perf]
    by (simp del: append_Cons append_Nil add: neq_commute)
qed

lemma edge_line_in_diagram:
  assumes "mermaid_lines comps = Inr m"
  shows "edge_line n d \<in> set m \<longleftrightarrow> edge_line n d \<in> set (add_relationships comps comps [])"
proof -
  from assms have m: "m = ([''graph TD'', ''    %% Style definitions''] @ style_lines)
         @ concat (map (\<lambda>(l, g). if g = [] then [] else
             [''    subgraph '' @ l @ '' Layer'']
               @ map (\<lambda>c. node_line c (the (performance c))) g
               @ [''    end'' @ [CHR 0x0A]]) (layers comps))
         @ add_relationships comps comps []"
    using mermaid_lines_Inr [of comps m] by blast
  have b: "edge_line n d \<notin> set (if g = [] then [] else
             [''    subgraph '' @ l @ '' Layer'']
               @ map (\<lambda>c. node_line c (the (performance c))) g
               @ [''    end'' @ [CHR 0x0A]])"
    if "edge_line n d \<noteq> ''    subgraph '' @ l @ '' Layer''" for l g
  proof (cases "g = []")
    case True
    then show ?thesis by simp
  next
    case False
    have "edge_line n d \<notin> set (map (\<lambda>c. node_line c (the (performance c))) g)"
      using edge_line_not_node_line [of n d] by auto
    then show ?thesis using False that edge_line_not_fixed(5) [of n d]
      by (simp del: append_Cons append_Nil)
  qed
  have "edge_line n d \<notin> set (concat (map (\<lambda>(l, g). if g = [] then [] else
             [''    subgraph '' @ l @ '' Layer'']
               @ map (\<lambda>c. node_line c (the (performance c))) g
               @ [''    end'' @ [CHR 0x0A]]) (layers comps)))"
    unfolding layers_def
    using b [OF edge_line_not_fixed(2)] b [OF edge_line_not_fixed(3)] b [OF edge_line_not_fixed(4)]
    by (simp only: list.map prod.case concat.simps set_append Un_iff append_Nil2) blast
  then show ?thesis
    unfolding m using edge_line_not_fixed(1) [of n d] by (simp only: set_append Un_iff) blast
qed

lemma analyze_files_perf:
  assumes "analyze_files fs comps = Inr comps'"
    and "\<forall>(k, c) \<in> set comps. performance c \<noteq> None"
  shows "\<forall>(k, c) \<in> set comps'. performance c \<noteq> None"
  using assms
proof (induction fs arbitrary: comps)
  case Nil
  then show ?case by simp
next
  case (Cons f fs)
  show ?case
  proof (cases "py_in ''test'' (lower (file_stem f))")
    case True
    then have "analyze_files fs comps = Inr comps'" using Cons.prems(1) by simp
    from Cons.IH [OF this Cons.prems(2)] show ?thesis .
  next
    case False
    from Cons.prems(1) False obtain ty where ty: "detect_component_type f = Inr ty"
      by (cases "detect_component_type f") simp_all
    from Cons.prems(1) False ty obtain deps where deps: "extract_dependencies f = Inr deps"
      by (cases "extract_dependencies f") simp_all
    from Cons.prems(1) False ty deps obtain perf where perf: "analyze_performance f = Inr perf"
      by (cases "analyze_performance f") simp_all
    define c0 where "c0 = \<lparr>name = file_stem f, type = ty, path = file_path f,
                             performance = Some perf,
                             security_issues = analyze_security f,
                             test_coverage = 0, docker_layers = [],
                             dependencies = deps, api_endpoints = [],
                             external_urls = []\<rparr>"
    have r: "analyze_files fs (dict_set (file_stem f) c0 comps) = Inr comps'"
      using Cons.prems(1) False ty deps perf unfolding c0_def by simp
    have p: "performance c0 \<noteq> None" by (simp add: c0_def)
    have "performance c \<noteq> None" if "(k, c) \<in> set (dict_set (file_stem f) c0 comps)" for k c
    proof -
      from that set_dict_set [of "file_stem f" c0 comps]
      have "(k, c) = (file_stem f, c0) \<or> (k, c) \<in> set comps" by blast
      then show ?thesis
      proof
        assume "(k, c) = (file_stem f, c0)"
        then show ?thesis using p by simp
      next
        assume "(k, c) \<in> set comps"
        then show ?thesis using Cons.prems(2) by blast
      qed
    qed
    then have "\<forall>(k, c) \<in> set (dict_set (file_stem f) c0 comps). performance c \<noteq> None"
      by blast
    from Cons.IH [OF r this] show ?thesis .
  qed
qed

lemma reachable_performance:
  assumes "reachable w a"
  shows "\<forall>(k, c) \<in> set (components a). performance c \<noteq> None"
  using assms
proof (induction rule: reachable.induct)
  case (constructed repo_url local_path a)
  then show ?case using init_components [of w repo_url local_path a] by simp
next
  case (analyzed a a')
  show ?case
    by (rule analyze_files_perf [OF analyze_components [OF analyzed.hyps(2)] analyzed.IH])
next
  case (rendered a s a')
  from generate_mermaid_state [OF rendered.hyps(2)] show ?case
  proof
    assume "a' = a" then show ?thesis using rendered.IH by simp
  next
    assume "analyze w a = Inr a'"
    show ?thesis
      by (rule analyze_files_perf [OF analyze_components [OF \<open>analyze w a = Inr a'\<close>]
            rendered.IH])
  qed
qed

lemma reachable_renders:
  "reachable w a \<Longrightarrow> \<exists>m. mermaid_lines (components a) = Inr m"
  by (rule render_succeeds [OF reachable_performance])

section \<open>The layer groups\<close>

lemma count_list_distinct:
  "distinct xs \<Longrightarrow> count_list xs x = (if x \<in> set xs then 1 else 0)"
  by (induction xs) auto

lemma count_list_filter_distinct:
  "distinct xs \<Longrightarrow> x \<in> set xs \<Longrightarrow> count_list (filter P xs) x = (if P x then 1 else 0)"
  using count_list_distinct [of "filter P xs" x] by simp

lemma distinct_values:
  assumes "distinct (map fst comps)" and "\<forall>(k, c) \<in> set comps. name c = k"
  shows "distinct (dict_values comps)"
proof -
  have e: "map (name \<circ> snd) comps = map fst comps"
    using assms(2) by (induction comps) auto
  have "distinct (map name (dict_values comps))"
    using assms(1) by (simp add: e dict_values_def)
  then show ?thesis using distinct_map [of name "dict_values comps"] by blast
qed

lemma count_node_lines:
  assumes "distinct (map fst comps)" and "\<forall>(k, c) \<in> set comps. name c = k"
    and "(k, c) \<in> set comps" and "performance c = Some perf"
    and "mermaid_lines comps = Inr m"
  shows "count_list m (node_line c perf) =
           (if py_in ''client'' (lower (name c)) then 1 else 0)
         + (if py_in ''api'' (lower (name c)) then 1 else 0)
         + (if py_in ''core'' (lower (name c)) \<or> py_in ''type'' (lower (name c))
               \<or> py_in ''base'' (lower (name c)) then 1 else 0)"
proof -
  define g1 where "g1 = filter (\<lambda>c. py_in ''client'' (lower (name c))) (dict_values comps)"
  define g2 where "g2 = filter (\<lambda>c. py_in ''api'' (lower (name c))) (dict_values comps)"
  define g3 where "g3 = filter (\<lambda>c. list_ex (\<lambda>x. py_in x (lower (name c)))
                            [''core'', ''type'', ''base'']) (dict_values comps)"
  have l: "layers comps = [(''Client'', g1), (''API'', g2), (''Core'', g3)]"
    by (simp add: layers_def g1_def g2_def g3_def)
  have dv: "distinct (dict_values comps)" using assms(1,2) by (rule distinct_values)
  have cv: "c \<in> set (dict_values comps)" using assms(3) by (force simp: dict_values_def)
  have inj: "y = c"
    if "y \<in> set (dict_values comps)"
      and "node_line y (the (performance y)) = node_line c perf" for y
  proof -
    from that(1) obtain k' where k': "(k', y) \<in> set comps" by (auto simp: dict_values_def)
    have "name y = name c" using that(2) by (rule node_line_name_inj)
    moreover have "name y = k'" "name c = k" using assms(2,3) k' by blast+
    ultimately have "(k, y) \<in> set comps" using k' by simp
    from eq_key_imp_eq_value [OF assms(1) this assms(3)] show ?thesis .
  qed
  have c1: "count_list (if g1 = [] then [] else
             [''    subgraph '' @ ''Client'' @ '' Layer'']
               @ map (\<lambda>c. node_line c (the (performance c))) g1
               @ [''    end'' @ [CHR 0x0A]]) (node_line c perf) = count_list g1 c"
    by (rule count_block [OF _ assms(4)]) (rule inj, simp_all add: g1_def)
  have c2: "count_list (if g2 = [] then [] else
             [''    subgraph '' @ ''API'' @ '' Layer'']
               @ map (\<lambda>c. node_line c (the (performance c))) g2
               @ [''    end'' @ [CHR 0x0A]]) (node_line c perf) = count_list g2 c"
    by (rule count_block [OF _ assms(4)]) (rule inj, simp_all add: g2_def)
  have c3: "count_list (if g3 = [] then [] else
             [''    subgraph '' @ ''Core'' @ '' Layer'']
               @ map (\<lambda>c. node_line c (the (performance c))) g3
               @ [''    end'' @ [CHR 0x0A]]) (node_line c perf) = count_list g3 c"
    by (rule count_block [OF _ assms(4)]) (rule inj, simp_all add: g3_def)
  have h: "count_list ([''graph TD'', ''    %% Style definitions''] @ style_lines)
             (node_line c perf) = 0"
    by (rule iffD2 [OF count_list_0_iff node_line_not_fixed(1)])
  have e: "count_list (add_relationships comps comps []) (node_line c perf) = 0"
    by (rule iffD2 [OF count_list_0_iff node_line_not_in_edges])
  from assms(5) have m: "m = ([''graph TD'', ''    %% Style definitions''] @ style_lines)
         @ concat (map (\<lambda>(l, g). if g = [] then [] else
             [''    subgraph '' @ l @ '' Layer'']
               @ map (\<lambda>c. node_line c (the (performance c))) g
               @ [''    end'' @ [CHR 0x0A]]) (layers comps))
         @ add_relationships comps comps []"
    using mermaid_lines_Inr [of comps m] by blast
  have "count_list m (node_line c perf) = count_list g1 c + count_list g2 c + count_list g3 c"
    unfolding m l using h e c1 c2 c3
    by (simp only: count_list_append concat.simps map_append list.map prod.case add_0 add_0_right append_Nil2)
  moreover have "count_list g1 c = (if py_in ''client'' (lower (name c)) then 1 else 0)"
    unfolding g1_def by (rule count_list_filter_distinct [OF dv cv])
  moreover have "count_list g2 c = (if py_in ''api'' (lower (name c)) then 1 else 0)"
    unfolding g2_def by (rule count_list_filter_distinct [OF dv cv])
  moreover have "count_list g3 c = (if py_in ''core'' (lower (name c)) \<or> py_in ''type'' (lower (name c))
               \<or> py_in ''base'' (lower (name c)) then 1 else 0)"
    unfolding g3_def using count_list_filter_distinct [OF dv cv, of "\<lambda>c. list_ex (\<lambda>x. py_in x (lower (name c)))
                            [''core'', ''type'', ''base'']"] by simp
  ultimately show ?thesis by simp
qed

text \<open>
  Claim C5, as stated, fails: the three groups are selected by three independent tests,
  so the component \<open>api_client\<close> is in the group \<open>Client\<close> and in the group \<open>API\<close>, and its
  node line is emitted twice.
\<close>

theorem api_client_in_two_layers:
  "layers [(''api_client'', example_component ''api_client'' 5 [])] =
     [(''Client'', [example_component ''api_client'' 5 []]),
      (''API'', [example_component ''api_client'' 5 []]),
      (''Core'', [])]
   \<and> mermaid_lines [(''api_client'', example_component ''api_client'' 5 [])] = Inr
     [''graph TD'', ''    %% Style definitions'',
      ''    classDef high fill:#f44336,color:white'',
      ''    classDef medium fill:#fb8c00,color:white'',
      ''    classDef low fill:#81c784,color:black'',
      ''    subgraph Client Layer'',
      ''        api_client[api_client<br/>CC:5]:::low'', ''    end'' @ [CHR 0x0A],
      ''    subgraph API Layer'',
      ''        api_client[api_client<br/>CC:5]:::low'', ''    end'' @ [CHR 0x0A]]"
  by (simp add: eval_defs)

text \<open>
  Claim C5, amended. In a component map as \<open>analyze\<close> builds it (distinct keys, each
  component named by its key), a component is in exactly the groups whose substring test
  its lower-cased name passes, once in each; in the rendered diagram its node line occurs
  once per matching group, so at most three times; and the rendering succeeds when every
  component has its performance record. Every map a reachable analyzer holds is of this
  form, by the lemmas \<open>reachable_invariant\<close> and \<open>reachable_performance\<close>.
\<close>

theorem component_once_per_matching_layer:
  assumes "distinct (map fst comps)" and "\<forall>(k, c) \<in> set comps. name c = k"
    and "(k, c) \<in> set comps"
  shows "(\<exists>g1 g2 g3. layers comps = [(''Client'', g1), (''API'', g2), (''Core'', g3)]
          \<and> count_list g1 c = (if py_in ''client'' (lower (name c)) then 1 else 0)
          \<and> count_list g2 c = (if py_in ''api'' (lower (name c)) then 1 else 0)
          \<and> count_list g3 c =
               (if py_in ''core'' (lower (name c)) \<or> py_in ''type'' (lower (name c))
                   \<or> py_in ''base'' (lower (name c)) then 1 else 0)
          \<and> count_list (g1 @ g2 @ g3) c \<le> 3)
         \<and> (\<forall>m perf. mermaid_lines comps = Inr m \<and> performance c = Some perf \<longrightarrow>
               count_list m (node_line c perf) =
                   (if py_in ''client'' (lower (name c)) then 1 else 0)
                 + (if py_in ''api'' (lower (name c)) then 1 else 0)
                 + (if py_in ''core'' (lower (name c)) \<or> py_in ''type'' (lower (name c))
                       \<or> py_in ''base'' (lower (name c)) then 1 else 0)
               \<and> count_list m (node_line c perf) \<le> 3)
         \<and> ((\<forall>(k', c') \<in> set comps. performance c' \<noteq> None) \<longrightarrow>
               (\<exists>m. mermaid_lines comps = Inr m))"
proof -
  have d: "distinct (dict_values comps)" using assms(1,2) by (rule distinct_values)
  have m: "c \<in> set (dict_values comps)"
    using assms(3) by (force simp: dict_values_def)
  have 1: "\<exists>g1 g2 g3. layers comps = [(''Client'', g1), (''API'', g2), (''Core'', g3)]
          \<and> count_list g1 c = (if py_in ''client'' (lower (name c)) then 1 else 0)
          \<and> count_list g2 c = (if py_in ''api'' (lower (name c)) then 1 else 0)
          \<and> count_list g3 c =
               (if py_in ''core'' (lower (name c)) \<or> py_in ''type'' (lower (name c))
                   \<or> py_in ''base'' (lower (name c)) then 1 else 0)
          \<and> count_list (g1 @ g2 @ g3) c \<le> 3"
    unfolding layers_def
    by (simp add: count_list_filter_distinct [OF d m])
  have 2: "count_list m (node_line c perf) =
                   (if py_in ''client'' (lower (name c)) then 1 else 0)
                 + (if py_in ''api'' (lower (name c)) then 1 else 0)
                 + (if py_in ''core'' (lower (name c)) \<or> py_in ''type'' (lower (name c))
                       \<or> py_in ''base'' (lower (name c)) then 1 else 0)
               \<and> count_list m (node_line c perf) \<le> 3"
    if "mermaid_lines comps = Inr m" "performance c = Some perf" for m perf
    using count_node_lines [OF assms that(2,1)] by simp
  have 3: "(\<forall>(k', c') \<in> set comps. performance c' \<noteq> None) \<longrightarrow>
               (\<exists>m. mermaid_lines comps = Inr m)"
    using render_succeeds [of comps] by blast
  from 1 2 3 show ?thesis by blast
qed

lemma example_api_client_lines:
  "mermaid_lines [(''api_client'', example_component ''api_client'' 5 [])] = Inr
     [''graph TD'', ''    %% Style definitions'',
      ''    classDef high fill:#f44336,color:white'',
      ''    classDef medium fill:#fb8c00,color:white'',
      ''    classDef low fill:#81c784,color:black'',
      ''    subgraph Client Layer'',
      ''        api_client[api_client<br/>CC:5]:::low'', ''    end'' @ [CHR 0x0A],
      ''    subgraph API Layer'',
      ''        api_client[api_client<br/>CC:5]:::low'', ''    end'' @ [CHR 0x0A]]"
  by (simp add: eval_defs)

theorem component_once_per_matching_layer_witness:
  "distinct (map fst [(''api_client'', example_component ''api_client'' 5 [])])
   \<and> name (example_component ''api_client'' 5 []) = ''api_client''
   \<and> mermaid_lines [(''api_client'', example_component ''api_client'' 5 [])] = Inr
     [''graph TD'', ''    %% Style definitions'',
      ''    classDef high fill:#f44336,color:white'',
      ''    classDef medium fill:#fb8c00,color:white'',
      ''    classDef low fill:#81c784,color:black'',
      ''    subgraph Client Layer'',
      ''        api_client[api_client<br/>CC:5]:::low'', ''    end'' @ [CHR 0x0A],
      ''    subgraph API Layer'',
      ''        api_client[api_client<br/>CC:5]:::low'', ''    end'' @ [CHR 0x0A]]
   \<and> count_list
     [''graph TD'', ''    %% Style definitions'',
      ''    classDef high fill:#f44336,color:white'',
      ''    classDef medium fill:#fb8c00,color:white'',
      ''    classDef low fill:#81c784,color:black'',
      ''    subgraph Client Layer'',
      ''        api_client[api_client<br/>CC:5]:::low'', ''    end'' @ [CHR 0x0A],
      ''    subgraph API Layer'',
      ''        api_client[api_client<br/>CC:5]:::low'', ''    end'' @ [CHR 0x0A]]
     (node_line (example_component ''api_client'' 5 [])
        \<lparr>complexity = 5, maintainability = 100, io_operations = 0, db_operations = 0,
         network_calls = 0\<rparr>) = 2"
proof -
  have 1: "distinct (map fst [(''api_client'', example_component ''api_client'' 5 [])])"
    by simp
  have 2: "\<forall>(k, c) \<in> set [(''api_client'', example_component ''api_client'' 5 [])]. name c = k"
    by (simp add: example_component_def)
  have 3: "(''api_client'', example_component ''api_client'' 5 [])
      \<in> set [(''api_client'', example_component ''api_client'' 5 [])]"
    by simp
  have 4: "performance (example_component ''api_client'' 5 []) =
      Some \<lparr>complexity = 5, maintainability = 100, io_operations = 0, db_operations = 0,
         network_calls = 0\<rparr>"
    by (simp add: example_component_def)
  have 5: "name (example_component ''api_client'' 5 []) = ''api_client''"
    by (simp add: example_component_def)
  have 6: "py_in ''client'' (lower ''api_client'')" "py_in ''api'' (lower ''api_client'')"
    "\<not> py_in ''core'' (lower ''api_client'')" "\<not> py_in ''type'' (lower ''api_client'')"
    "\<not> py_in ''base'' (lower ''api_client'')"
    by (simp_all add: lower_def lower_char_def)
  from component_once_per_matching_layer [OF 1 2 3] example_api_client_lines 4
  have "count_list
     [''graph TD'', ''    %% Style definitions'',
      ''    classDef high fill:#f44336,color:white'',
      ''    classDef medium fill:#fb8c00,color:white'',
      ''    classDef low fill:#81c784,color:black'',
      ''    subgraph Client Layer'',
      ''        api_client[api_client<br/>CC:5]:::low'', ''    end'' @ [CHR 0x0A],
      ''    subgraph API Layer'',
      ''        api_client[api_client<br/>CC:5]:::low'', ''    end'' @ [CHR 0x0A]]
     (node_line (example_component ''api_client'' 5 [])
        \<lparr>complexity = 5, maintainability = 100, io_operations = 0, db_operations = 0,
         network_calls = 0\<rparr>) =
        (if py_in ''client'' (lower (name (example_component ''api_client'' 5 []))) then 1 else 0)
      + (if py_in ''api'' (lower (name (example_component ''api_client'' 5 []))) then 1 else 0)
      + (if py_in ''core'' (lower (name (example_component ''api_client'' 5 [])))
            \<or> py_in ''type'' (lower (name (example_component ''api_client'' 5 [])))
            \<or> py_in ''base'' (lower (name (example_component ''api_client'' 5 []))) then 1 else 0)"
    by blast
  then have "count_list
     [''graph TD'', ''    %% Style definitions'',
      ''    classDef high fill:#f44336,color:white'',
      ''    classDef medium fill:#fb8c00,color:white'',
      ''    classDef low fill:#81c784,color:black'',
      ''    subgraph Client Layer'',
      ''        api_client[api_client<br/>CC:5]:::low'', ''    end'' @ [CHR 0x0A],
      ''    subgraph API Layer'',
      ''        api_client[api_client<br/>CC:5]:::low'', ''    end'' @ [CHR 0x0A]]
     (node_line (example_component ''api_client'' 5 [])
        \<lparr>complexity = 5, maintainability = 100, io_operations = 0, db_operations = 0,
         network_calls = 0\<rparr>) = 2"
    unfolding 5 using 6 by simp
  with 1 5 example_api_client_lines show ?thesis by blast
qed

section \<open>Components outside every layer, and the edges\<close>

lemma filter_values_without:
  assumes "\<not> P c"
  shows "filter P (dict_values (filter (\<lambda>(k', c'). c' \<noteq> c) comps)) = filter P (dict_values comps)"
  using assms by (induction comps) (auto simp: dict_values_def)

lemma example_map_lines:
  "mermaid_lines example_map = Inr
     [''graph TD'', ''    %% Style definitions'',
      ''    classDef high fill:#f44336,color:white'',
      ''    classDef medium fill:#fb8c00,color:white'',
      ''    classDef low fill:#81c784,color:black'',
      ''    subgraph API Layer'', ''        api[api<br/>CC:60]:::high'',
      ''    end'' @ [CHR 0x0A], ''    utils --> api'']"
  by (simp add: example_map_def eval_defs)

lemma unmatched_no_node_line:
  assumes "\<not> list_ex (\<lambda>x. py_in x (lower (name c)))
             [''client'', ''api'', ''core'', ''type'', ''base'']"
    and "mermaid_lines comps = Inr m"
  shows "node_line c perf \<notin> set m"
proof
  assume i: "node_line c perf \<in> set m"
  from assms(2) have m: "m = ([''graph TD'', ''    %% Style definitions''] @ style_lines)
         @ concat (map (\<lambda>(l, g). if g = [] then [] else
             [''    subgraph '' @ l @ '' Layer'']
               @ map (\<lambda>c. node_line c (the (performance c))) g
               @ [''    end'' @ [CHR 0x0A]]) (layers comps))
         @ add_relationships comps comps []"
    using mermaid_lines_Inr [of comps m] by blast
  from i have "node_line c perf \<in> set (concat (map (\<lambda>(l, g). if g = [] then [] else
             [''    subgraph '' @ l @ '' Layer'']
               @ map (\<lambda>c. node_line c (the (performance c))) g
               @ [''    end'' @ [CHR 0x0A]]) (layers comps)))"
    unfolding m using node_line_not_fixed(1) [of c perf] node_line_not_in_edges [of c perf comps]
    by (simp only: set_append Un_iff) blast
  then obtain l g where lg: "(l, g) \<in> set (layers comps)"
    and b: "node_line c perf \<in> set (if g = [] then [] else
             [''    subgraph '' @ l @ '' Layer'']
               @ map (\<lambda>c. node_line c (the (performance c))) g
               @ [''    end'' @ [CHR 0x0A]])"
    by auto
  from b have "node_line c perf \<in> set (map (\<lambda>c. node_line c (the (performance c))) g)"
    using node_line_not_fixed(2) [of c perf l] node_line_not_fixed(3) [of c perf]
    by (cases "g = []") (simp_all del: append_Cons append_Nil)
  then obtain y where y: "y \<in> set g" and e: "node_line c perf = node_line y (the (performance y))"
    by auto
  have n: "name c = name y" using e by (rule node_line_name_inj)
  have "list_ex (\<lambda>x. py_in x (lower (name y)))
             [''client'', ''api'', ''core'', ''type'', ''base'']"
    using lg y by (auto simp: layers_def)
  then show False using assms(1) n by simp
qed

text \<open>
  Claim C6. A component whose lower-cased name holds none of \<open>client\<close>, \<open>api\<close>, \<open>core\<close>,
  \<open>type\<close> and \<open>base\<close> is in no layer group (the groups are those of the map without it),
  and no line of the rendered diagram is a node line of it, whatever its complexity; yet
  for each of its dependencies that is a key of the map, the edge line from its key to
  that dependency is in the diagram. The rendering succeeds when every component has its
  performance record.
\<close>

theorem unmatched_component_has_edges_but_no_node:
  assumes "(k, c) \<in> set comps"
    and "\<not> list_ex (\<lambda>x. py_in x (lower (name c)))
             [''client'', ''api'', ''core'', ''type'', ''base'']"
  shows "(\<forall>(layer, grp) \<in> set (layers comps). c \<notin> set grp)
         \<and> layers (filter (\<lambda>(k', c'). c' \<noteq> c) comps) = layers comps
         \<and> (\<forall>m. mermaid_lines comps = Inr m \<longrightarrow>
               (\<forall>perf. node_line c perf \<notin> set m)
               \<and> (\<forall>dep \<in> set (dependencies c). dep \<in> keys comps \<longrightarrow> edge_line k dep \<in> set m))
         \<and> ((\<forall>(k', c') \<in> set comps. performance c' \<noteq> None) \<longrightarrow>
               (\<exists>m. mermaid_lines comps = Inr m))"
proof -
  have n1: "\<not> py_in ''client'' (lower (name c))" and n2: "\<not> py_in ''api'' (lower (name c))"
    and n3: "\<not> list_ex (\<lambda>x. py_in x (lower (name c))) [''core'', ''type'', ''base'']"
    using assms(2) by simp_all
  have a: "\<forall>(layer, grp) \<in> set (layers comps). c \<notin> set grp"
    using n1 n2 n3 by (simp add: layers_def)
  have b: "layers (filter (\<lambda>(k', c'). c' \<noteq> c) comps) = layers comps"
    unfolding layers_def
    using filter_values_without [of "\<lambda>c. py_in ''client'' (lower (name c))" c comps, OF n1]
      filter_values_without [of "\<lambda>c. py_in ''api'' (lower (name c))" c comps, OF n2]
      filter_values_without [of "\<lambda>c. list_ex (\<lambda>x. py_in x (lower (name c)))
          [''core'', ''type'', ''base'']" c comps, OF n3]
    by simp
  have c: "edge_line k dep \<in> set m"
    if "mermaid_lines comps = Inr m" "dep \<in> set (dependencies c)" "dep \<in> keys comps" for m dep
  proof -
    from mermaid_lines_split [OF that(1)] obtain nodes
      where "m = nodes @ add_relationships comps comps []" by blast
    moreover have "edge_line k dep \<in> set (add_relationships comps comps [])"
      unfolding set_add_relationships using assms(1) that(2,3) by blast
    ultimately show ?thesis by simp
  qed
  have d: "node_line c perf \<notin> set m" if "mermaid_lines comps = Inr m" for m perf
    using assms(2) that by (rule unmatched_no_node_line)
  have e: "(\<forall>(k', c') \<in> set comps. performance c' \<noteq> None) \<longrightarrow>
               (\<exists>m. mermaid_lines comps = Inr m)"
    using render_succeeds [of comps] by blast
  from a b c d e show ?thesis by blast
qed


theorem unmatched_component_has_edges_but_no_node_witness:
  "(''utils'', example_component ''utils'' 3 [''api'', ''requests'']) \<in> set example_map
   \<and> \<not> list_ex (\<lambda>x. py_in x (lower (name (example_component ''utils'' 3 [''api'', ''requests'']))))
             [''client'', ''api'', ''core'', ''type'', ''base'']
   \<and> mermaid_lines example_map = Inr
     [''graph TD'', ''    %% Style definitions'',
      ''    classDef high fill:#f44336,color:white'',
      ''    classDef medium fill:#fb8c00,color:white'',
      ''    classDef low fill:#81c784,color:black'',
      ''    subgraph API Layer'', ''        api[api<br/>CC:60]:::high'',
      ''    end'' @ [CHR 0x0A], ''    utils --> api'']
   \<and> node_line (example_component ''utils'' 3 [''api'', ''requests''])
        \<lparr>complexity = 3, maintainability = 100, io_operations = 0, db_operations = 0,
         network_calls = 0\<rparr> = ''        utils[utils<br/>CC:3]:::low''
   \<and> ''        utils[utils<br/>CC:3]:::low'' \<notin> set
     [''graph TD'', ''    %% Style definitions'',
      ''    classDef high fill:#f44336,color:white'',
      ''    classDef medium fill:#fb8c00,color:white'',
      ''    classDef low fill:#81c784,color:black'',
      ''    subgraph API Layer'', ''        api[api<br/>CC:60]:::high'',
      ''    end'' @ [CHR 0x0A], ''    utils --> api'']
   \<and> ''api'' \<in> set (dependencies (example_component ''utils'' 3 [''api'', ''requests'']))
   \<and> ''api'' \<in> keys example_map
   \<and> edge_line ''utils'' ''api'' \<in> set
     [''graph TD'', ''    %% Style definitions'',
      ''    classDef high fill:#f44336,color:white'',
      ''    classDef medium fill:#fb8c00,color:white'',
      ''    classDef low fill:#81c784,color:black'',
      ''    subgraph API Layer'', ''        api[api<br/>CC:60]:::high'',
      ''    end'' @ [CHR 0x0A], ''    utils --> api'']"
proof -
  have 1: "(''utils'', example_component ''utils'' 3 [''api'', ''requests'']) \<in> set example_map"
    by (simp add: example_map_def)
  have 2: "\<not> list_ex (\<lambda>x. py_in x (lower (name (example_component ''utils'' 3 [''api'', ''requests'']))))
             [''client'', ''api'', ''core'', ''type'', ''base'']"
    by (simp add: eval_defs)
  have 3: "node_line (example_component ''utils'' 3 [''api'', ''requests''])
        \<lparr>complexity = 3, maintainability = 100, io_operations = 0, db_operations = 0,
         network_calls = 0\<rparr> = ''        utils[utils<br/>CC:3]:::low''"
    by (simp add: eval_defs)
  have 4: "''api'' \<in> set (dependencies (example_component ''utils'' 3 [''api'', ''requests'']))"
    by (simp add: example_component_def)
  have 5: "''api'' \<in> keys example_map" by (simp add: example_map_def keys_def)
  from unmatched_component_has_edges_but_no_node [OF 1 2] example_map_lines
  have n: "node_line (example_component ''utils'' 3 [''api'', ''requests''])
        \<lparr>complexity = 3, maintainability = 100, io_operations = 0, db_operations = 0,
         network_calls = 0\<rparr> \<notin> set
     [''graph TD'', ''    %% Style definitions'',
      ''    classDef high fill:#f44336,color:white'',
      ''    classDef medium fill:#fb8c00,color:white'',
      ''    classDef low fill:#81c784,color:black'',
      ''    subgraph API Layer'', ''        api[api<br/>CC:60]:::high'',
      ''    end'' @ [CHR 0x0A], ''    utils --> api'']"
    and e: "\<forall>dep \<in> set (dependencies (example_component ''utils'' 3 [''api'', ''requests''])).
       dep \<in> keys example_map \<longrightarrow> edge_line ''utils'' dep \<in> set
     [''graph TD'', ''    %% Style definitions'',
      ''    classDef high fill:#f44336,color:white'',
      ''    classDef medium fill:#fb8c00,color:white'',
      ''    classDef low fill:#81c784,color:black'',
      ''    subgraph API Layer'', ''        api[api<br/>CC:60]:::high'',
      ''    end'' @ [CHR 0x0A], ''    utils --> api'']"
    by blast+
  from e 4 5 have "edge_line ''utils'' ''api'' \<in> set
     [''graph TD'', ''    %% Style definitions'',
      ''    classDef high fill:#f44336,color:white'',
      ''    classDef medium fill:#fb8c00,color:white'',
      ''    classDef low fill:#81c784,color:black'',
      ''    subgraph API Layer'', ''        api[api<br/>CC:60]:::high'',
      ''    end'' @ [CHR 0x0A], ''    utils --> api'']"
    by blast
  with 1 2 3 4 5 n example_map_lines show ?thesis by simp
qed

text \<open>
  Claim C7. The edge lines the renderer appends are exactly the lines from the key of a
  component to one of its dependencies that is a key of the map, and a dependency that is
  not a key (a third-party module) adds no line. The diagram is the node part followed by
  these edge lines, and an edge line is a line of the diagram if and only if it is the
  line of such a dependency. The rendering succeeds when every component has its
  performance record.
\<close>

theorem edge_lines_exactly_key_dependencies:
  "(e \<in> set (add_relationships comps comps []) \<longleftrightarrow>
      (\<exists>n c dep. (n, c) \<in> set comps \<and> dep \<in> set (dependencies c) \<and> dep \<in> keys comps
         \<and> e = edge_line n dep))
   \<and> ((\<forall>dep \<in> set deps. dep \<notin> keys comps) \<longrightarrow> add_deps comps n deps m = m)
   \<and> (mermaid_lines comps = Inr m \<longrightarrow>
        (\<exists>nodes. add_layers (layers comps)
                    ([''graph TD'', ''    %% Style definitions''] @ style_lines) = Inr nodes
                \<and> m = nodes @ add_relationships comps comps [])
        \<and> (edge_line n' d \<in> set m \<longleftrightarrow>
             (\<exists>n c dep. (n, c) \<in> set comps \<and> dep \<in> set (dependencies c)
                \<and> dep \<in> keys comps \<and> edge_line n' d = edge_line n dep)))
   \<and> ((\<forall>(k, c) \<in> set comps. performance c \<noteq> None) \<longrightarrow>
        (\<exists>m'. mermaid_lines comps = Inr m'))"
proof -
  have 1: "(\<forall>dep \<in> set deps. dep \<notin> keys comps) \<longrightarrow> add_deps comps n deps m = m"
    by (induction deps) auto
  have 2: "x \<in> set (add_relationships comps comps []) \<longleftrightarrow>
      (\<exists>n c dep. (n, c) \<in> set comps \<and> dep \<in> set (dependencies c) \<and> dep \<in> keys comps
         \<and> x = edge_line n dep)" for x
    unfolding set_add_relationships by auto
  have 3: "edge_line n' d \<in> set m \<longleftrightarrow>
             (\<exists>n c dep. (n, c) \<in> set comps \<and> dep \<in> set (dependencies c)
                \<and> dep \<in> keys comps \<and> edge_line n' d = edge_line n dep)"
    if "mermaid_lines comps = Inr m"
    using edge_line_in_diagram [OF that, of n' d] 2 [of "edge_line n' d"] by simp
  have 4: "(\<forall>(k, c) \<in> set comps. performance c \<noteq> None) \<longrightarrow>
        (\<exists>m'. mermaid_lines comps = Inr m')"
    using render_succeeds [of comps] by blast
  from 1 2 [of e] 3 4 mermaid_lines_split [of comps m] show ?thesis by blast
qed

theorem edge_lines_exactly_key_dependencies_witness:
  "mermaid_lines example_map = Inr
     [''graph TD'', ''    %% Style definitions'',
      ''    classDef high fill:#f44336,color:white'',
      ''    classDef medium fill:#fb8c00,color:white'',
      ''    classDef low fill:#81c784,color:black'',
      ''    subgraph API Layer'', ''        api[api<br/>CC:60]:::high'',
      ''    end'' @ [CHR 0x0A], ''    utils --> api'']
   \<and> add_relationships example_map example_map [] = [''    utils --> api'']
   \<and> ''api'' \<in> keys example_map \<and> ''requests'' \<notin> keys example_map
   \<and> edge_line ''utils'' ''api'' = ''    utils --> api''
   \<and> edge_line ''utils'' ''api'' \<in> set
     [''graph TD'', ''    %% Style definitions'',
      ''    classDef high fill:#f44336,color:white'',
      ''    classDef medium fill:#fb8c00,color:white'',
      ''    classDef low fill:#81c784,color:black'',
      ''    subgraph API Layer'', ''        api[api<br/>CC:60]:::high'',
      ''    end'' @ [CHR 0x0A], ''    utils --> api'']
   \<and> edge_line ''utils'' ''requests'' \<notin> set
     [''graph TD'', ''    %% Style definitions'',
      ''    classDef high fill:#f44336,color:white'',
      ''    classDef medium fill:#fb8c00,color:white'',
      ''    classDef low fill:#81c784,color:black'',
      ''    subgraph API Layer'', ''        api[api<br/>CC:60]:::high'',
      ''    end'' @ [CHR 0x0A], ''    utils --> api'']
   \<and> add_deps example_map ''utils'' [''requests''] [] = []"
proof -
  have 1: "''requests'' \<notin> keys example_map" by (simp add: example_map_def keys_def)
  have 2: "''api'' \<in> keys example_map" by (simp add: example_map_def keys_def)
  have 3: "add_relationships example_map example_map [] = [''    utils --> api'']"
    by (simp add: example_map_def eval_defs)
  have 4: "edge_line ''utils'' ''api'' = ''    utils --> api''" by (simp add: eval_defs)
  have 5: "edge_line ''utils'' ''requests'' \<notin> set
     [''graph TD'', ''    %% Style definitions'',
      ''    classDef high fill:#f44336,color:white'',
      ''    classDef medium fill:#fb8c00,color:white'',
      ''    classDef low fill:#81c784,color:black'',
      ''    subgraph API Layer'', ''        api[api<br/>CC:60]:::high'',
      ''    end'' @ [CHR 0x0A], ''    utils --> api'']"
    by (simp add: eval_defs)
  have 6: "edge_line ''utils'' ''api'' \<in> set
     [''graph TD'', ''    %% Style definitions'',
      ''    classDef high fill:#f44336,color:white'',
      ''    classDef medium fill:#fb8c00,color:white'',
      ''    classDef low fill:#81c784,color:black'',
      ''    subgraph API Layer'', ''        api[api<br/>CC:60]:::high'',
      ''    end'' @ [CHR 0x0A], ''    utils --> api'']"
    by (simp add: eval_defs)
  from edge_lines_exactly_key_dependencies
     [of "''    utils --> api''" example_map "[''requests'']" "''utils''"
         "[''graph TD'', ''    %% Style definitions'',
      ''    classDef high fill:#f44336,color:white'',
      ''    classDef medium fill:#fb8c00,color:white'',
      ''    classDef low fill:#81c784,color:black'',
      ''    subgraph API Layer'', ''        api[api<br/>CC:60]:::high'',
      ''    end'' @ [CHR 0x0A], ''    utils --> api'']"
         "''utils''" "''api''"]
     1 3 example_map_lines
  have 7: "(''    utils --> api'' \<in> set [''    utils --> api''] \<longleftrightarrow>
      (\<exists>n c dep. (n, c) \<in> set example_map \<and> dep \<in> set (dependencies c)
         \<and> dep \<in> keys example_map \<and> ''    utils --> api'' = edge_line n dep))"
    and 8: "edge_line ''utils'' ''api'' \<in> set
     [''graph TD'', ''    %% Style definitions'',
      ''    classDef high fill:#f44336,color:white'',
      ''    classDef medium fill:#fb8c00,color:white'',
      ''    classDef low fill:#81c784,color:black'',
      ''    subgraph API Layer'', ''        api[api<br/>CC:60]:::high'',
      ''    end'' @ [CHR 0x0A], ''    utils --> api''] \<longleftrightarrow>
             (\<exists>n c dep. (n, c) \<in> set example_map \<and> dep \<in> set (dependencies c)
                \<and> dep \<in> keys example_map \<and> edge_line ''utils'' ''api'' = edge_line n dep)"
    by simp_all
  from 7 8 have "edge_line ''utils'' ''api'' \<in> set
     [''graph TD'', ''    %% Style definitions'',
      ''    classDef high fill:#f44336,color:white'',
      ''    classDef medium fill:#fb8c00,color:white'',
      ''    classDef low fill:#81c784,color:black'',
      ''    subgraph API Layer'', ''        api[api<br/>CC:60]:::high'',
      ''    end'' @ [CHR 0x0A], ''    utils --> api'']"
    unfolding 4 by simp
  moreover from edge_lines_exactly_key_dependencies
     [of "''    utils --> api''" example_map "[''requests'']" "''utils''" "[]"] 1
  have "add_deps example_map ''utils'' [''requests''] [] = []" by simp
  ultimately show ?thesis using 1 2 3 4 5 example_map_lines by simp
qed

section \<open>The call tallies of the performance analyzer\<close>

lemma is_io_call_iff:
  "is_io_call n \<longleftrightarrow>
     (\<exists>i args. n = Call (Name i) args
        \<and> (py_in ''open'' i \<or> py_in ''read'' i \<or> py_in ''write'' i))"
proof (cases n)
  case (Call f args)
  then show ?thesis by (cases f) simp_all
qed simp_all

lemma is_db_call_iff:
  "is_db_call n \<longleftrightarrow>
     (\<exists>v a args. n = Call (Attribute v a) args
        \<and> (py_in ''execute'' a \<or> py_in ''query'' a \<or> py_in ''commit'' a))"
proof (cases n)
  case (Call f args)
  then show ?thesis by (cases f) simp_all
qed simp_all

lemma is_network_call_iff:
  "is_network_call n \<longleftrightarrow>
     (\<exists>v a args. n = Call (Attribute v a) args
        \<and> (py_in ''get'' a \<or> py_in ''post'' a \<or> py_in ''request'' a))"
proof (cases n)
  case (Call f args)
  then show ?thesis by (cases f) simp_all
qed simp_all

text \<open>
  Claim C4, as stated, fails: in the file whose only call is \<open>get(url)\<close>, the callee is a
  plain name, which has no \<open>attr\<close>, and the network tally is 0.
\<close>

theorem get_by_name_is_no_network_call:
  "analyze_performance example_get_file
   = Inr \<lparr>complexity = 0, maintainability = 100, io_operations = 0, db_operations = 0,
          network_calls = 0\<rparr>"
  by (simp add: world_defs example_get_file_def)

text \<open>
  Claim C4, amended. For every file the analyzer parses, the IO tally is the number of
  calls whose callee is a plain name that holds \<open>open\<close>, \<open>read\<close> or \<open>write\<close>; the DB tally
  the number of calls whose callee is an attribute access whose attribute name holds
  \<open>execute\<close>, \<open>query\<close> or \<open>commit\<close>; the network tally the number of calls whose callee is
  an attribute access whose attribute name holds \<open>get\<close>, \<open>post\<close> or \<open>request\<close>. A call of
  the plain name \<open>get\<close> is no network call; a call of an attribute \<open>get\<close> is one.
\<close>

theorem call_tallies:
  assumes "analyze_performance f = Inr p"
  shows "(\<exists>t. ast_parse f = Some t
          \<and> io_operations p = int (length (filter
               (\<lambda>n. \<exists>i args. n = Call (Name i) args
                  \<and> (py_in ''open'' i \<or> py_in ''read'' i \<or> py_in ''write'' i)) (walk t)))
          \<and> db_operations p = int (length (filter
               (\<lambda>n. \<exists>v a args. n = Call (Attribute v a) args
                  \<and> (py_in ''execute'' a \<or> py_in ''query'' a \<or> py_in ''commit'' a)) (walk t)))
          \<and> network_calls p = int (length (filter
               (\<lambda>n. \<exists>v a args. n = Call (Attribute v a) args
                  \<and> (py_in ''get'' a \<or> py_in ''post'' a \<or> py_in ''request'' a)) (walk t))))
         \<and> \<not> is_network_call (Call (Name i) args)
         \<and> is_network_call (Call (Attribute v ''get'') args)"
proof -
  from assms obtain s where s: "read_text f = Some s"
    by (cases "read_text f") (simp_all add: analyze_performance_def)
  from assms s obtain t where t: "ast_parse f = Some t"
    by (cases "ast_parse f") (simp_all add: analyze_performance_def)
  have p: "p = \<lparr>complexity = sum_list (cc_visit f), maintainability = mi_visit f,
                io_operations = int (length (filter is_io_call (walk t))),
                db_operations = int (length (filter is_db_call (walk t))),
                network_calls = int (length (filter is_network_call (walk t)))\<rparr>"
    using assms s t by (simp add: analyze_performance_def)
  have 1: "io_operations p = int (length (filter
               (\<lambda>n. \<exists>i args. n = Call (Name i) args
                  \<and> (py_in ''open'' i \<or> py_in ''read'' i \<or> py_in ''write'' i)) (walk t)))"
    unfolding p using is_io_call_iff by (simp cong: filter_cong)
  have 2: "db_operations p = int (length (filter
               (\<lambda>n. \<exists>v a args. n = Call (Attribute v a) args
                  \<and> (py_in ''execute'' a \<or> py_in ''query'' a \<or> py_in ''commit'' a)) (walk t)))"
    unfolding p using is_db_call_iff by (simp cong: filter_cong)
  have 3: "network_calls p = int (length (filter
               (\<lambda>n. \<exists>v a args. n = Call (Attribute v a) args
                  \<and> (py_in ''get'' a \<or> py_in ''post'' a \<or> py_in ''request'' a)) (walk t)))"
    unfolding p using is_network_call_iff by (simp cong: filter_cong)
  have 4: "\<not> is_network_call (Call (Name i) args)" by simp
  have 5: "is_network_call (Call (Attribute v ''get'') args)" by simp
  from t 1 2 3 4 5 show ?thesis by blast
qed

theorem call_tallies_witness:
  "analyze_performance example_calls_file
   = Inr \<lparr>complexity = 0, maintainability = 100, io_operations = 1, db_operations = 0,
          network_calls = 1\<rparr>
   \<and> \<not> is_network_call (Call (Name ''get'') [Name ''url''])
   \<and> is_network_call (Call (Attribute (Name ''session'') ''get'') [Name ''url''])"
proof -
  have 1: "analyze_performance example_calls_file
   = Inr \<lparr>complexity = 0, maintainability = 100, io_operations = 1, db_operations = 0,
          network_calls = 1\<rparr>"
    by (simp add: world_defs example_calls_file_def example_calls_def)
  from call_tallies [OF 1, where i = "''get''" and args = "[Name ''url'']"
      and v = "Name ''session''"] 1
  show ?thesis by blast
qed

end
